theory Spec2Isabelle
  imports Complex_Main "HOL-Library.Word"
begin

unbundle bit_operations_syntax

section \<open>Data model\<close>

text \<open>
  The development embeds \<^verbatim>\<open>src/PaContext.cc\<close> of naudiodon. C++ \<^verbatim>\<open>uint32_t\<close> is
  \<^typ>\<open>32 word\<close>, \<^verbatim>\<open>uint8_t\<close> is \<^typ>\<open>8 word\<close>, C \<^verbatim>\<open>int\<close> values exchanged with the audio
  engine are \<^typ>\<open>int\<close> (read from a word with \<^const>\<open>sint\<close>). C++ \<^verbatim>\<open>double\<close> is idealised
  as \<^typ>\<open>real\<close>: rounding, infinities and NaN are not modelled, so statements about
  timestamps are statements about the formulas the code evaluates. Two threads are not
  modelled either: every function is run to completion on the state it is given, and a call
  that would wait on a condition variable for another thread returns the fault
  \<open>Blocked\<close>. Console output (\<^verbatim>\<open>printf\<close>) is modelled only where a statement below
  depends on it.
\<close>

type_synonym uint8 = "8 word"
type_synonym uint32 = "32 word"

text \<open>
  \<^verbatim>\<open>Memory\<close> (declared in a header of its own) is a byte buffer whose size is a
  \<^verbatim>\<open>uint32_t\<close>; a null \<^verbatim>\<open>shared_ptr<Memory>\<close> is \<open>None\<close>.
  \<^verbatim>\<open>Chunk\<close> pairs such a pointer with a timestamp, as \<^verbatim>\<open>pullInChunk\<close> constructs it.
\<close>

type_synonym Memory = "uint8 list"

record Chunk =
  chunk :: "Memory option"
  ts :: real

text \<open>The number of bytes a chunk holds; a chunk without a buffer holds none.\<close>

definition chunkBytes :: "Chunk \<Rightarrow> nat" where
  "chunkBytes ch = (case chunk ch of None \<Rightarrow> 0 | Some m \<Rightarrow> length m)"

text \<open>
  \<^verbatim>\<open>PaStreamParameters\<close> of the audio engine, with the fields \<^verbatim>\<open>setParams\<close> assigns
  (\<^verbatim>\<open>hostApiSpecificStreamInfo\<close> is always null and left out).
\<close>

record PaStreamParameters =
  device :: int
  channelCount :: int
  sampleFormat :: nat
  suggestedLatency :: real

text \<open>
  \<^verbatim>\<open>AudioOptions\<close> (declared in \<^verbatim>\<open>Params.h\<close>): one field for each accessor
  \<^verbatim>\<open>PaContext.cc\<close> calls, all \<^verbatim>\<open>uint32_t\<close> but the flag.
\<close>

record AudioOptions =
  deviceID :: uint32
  sampleRate :: uint32
  channelCount :: uint32
  sampleFormat :: uint32
  sampleBits :: uint32
  maxQueue :: uint32
  closeOnError :: bool

datatype fault = Blocked | NullDeref

section \<open>The chunk queue\<close>

text \<open>
  \<^verbatim>\<open>Chunks\<close> is declared in \<^verbatim>\<open>Chunks.h\<close>, outside \<^verbatim>\<open>PaContext.cc\<close>. Its state and its
  operations follow the specification's ChunkQueue: the queued chunks in insertion order,
  the capacity bound (0 = unbounded), the quitting flag, the current chunk and the head
  offset into it.
\<close>

record Chunks =
  queue :: "Chunk list"
  maxQueued :: uint32
  quitting :: bool
  current :: "Chunk option"
  headOffset :: uint32

text \<open>Modelled from the spec: \<^verbatim>\<open>Chunks(maxQueue)\<close>, the queue is created empty at stream
  construction.\<close>

definition newChunks :: "uint32 \<Rightarrow> Chunks" where
  "newChunks mq = \<lparr>queue = [], maxQueued = mq, quitting = False,
                   current = None, headOffset = 0\<rparr>"

text \<open>Modelled from the spec: \<^verbatim>\<open>curBuf()\<close>, the read accessor into the front chunk's buffer;
  the "no current buffer" signal when there is no current chunk.\<close>

definition curBuf :: "Chunks \<Rightarrow> Memory option" where
  "curBuf c = (case current c of None \<Rightarrow> None | Some ch \<Rightarrow> chunk ch)"

text \<open>Modelled from the spec: \<^verbatim>\<open>curBytes()\<close>, the length of the current chunk (a
  \<^verbatim>\<open>uint32_t\<close>).\<close>

definition curBytes :: "Chunks \<Rightarrow> uint32" where
  "curBytes c = (case current c of None \<Rightarrow> 0 | Some ch \<Rightarrow> of_nat (chunkBytes ch))"

text \<open>Modelled from the spec: \<^verbatim>\<open>curOffset()\<close>, the bytes already consumed from the current
  chunk.\<close>

definition curOffset :: "Chunks \<Rightarrow> uint32" where
  "curOffset c = headOffset c"

text \<open>Modelled from the spec: \<^verbatim>\<open>curTs()\<close>, the timestamp of the current chunk.\<close>

definition curTs :: "Chunks \<Rightarrow> real" where
  "curTs c = (case current c of None \<Rightarrow> 0 | Some ch \<Rightarrow> ts ch)"

text \<open>Modelled from the spec: \<^verbatim>\<open>incOffset(n)\<close> advances the head offset by \<open>n\<close> bytes; the
  caller guarantees \<open>n \<le> curBytes - curOffset\<close>.\<close>

definition incOffset :: "Chunks \<Rightarrow> uint32 \<Rightarrow> Chunks" where
  "incOffset c n = c\<lparr>headOffset := headOffset c + n\<rparr>"

text \<open>Modelled from the spec: \<^verbatim>\<open>quit()\<close> sets the quitting flag, permanently.\<close>

definition quit :: "Chunks \<Rightarrow> Chunks" where
  "quit c = c\<lparr>quitting := True\<rparr>"

text \<open>Modelled from the spec: \<^verbatim>\<open>waitNext()\<close>. If the current chunk is fully consumed or
  absent, it pops the next queued chunk and resets the head offset to 0; if the queue is
  empty it blocks until a chunk is pushed or \<^verbatim>\<open>quit()\<close> is called (here: \<open>Blocked\<close>, no
  other thread runs); after \<^verbatim>\<open>quit()\<close>, with no chunk available, it leaves the current
  chunk empty and returns immediately.\<close>

definition waitNext :: "Chunks \<Rightarrow> fault + Chunks" where
  "waitNext c =
     (if (case current c of None \<Rightarrow> True | Some ch \<Rightarrow> headOffset c = of_nat (chunkBytes ch))
      then (case queue c of
              ch # rest \<Rightarrow> Inr (c\<lparr>queue := rest, current := Some ch, headOffset := 0\<rparr>)
            | [] \<Rightarrow> if quitting c then Inr (c\<lparr>current := None, headOffset := 0\<rparr>)
                    else Inl Blocked)
      else Inr c)"

text \<open>Modelled from the spec: \<^verbatim>\<open>push(chunk)\<close> appends a chunk to the tail. If the bound is
  positive and the queue is at capacity the caller blocks until space is available or
  \<^verbatim>\<open>quit()\<close> is called (here: \<open>Blocked\<close>); after \<^verbatim>\<open>quit()\<close> a push is a no-op.\<close>

definition push :: "Chunks \<Rightarrow> Chunk \<Rightarrow> fault + Chunks" where
  "push c ch =
     (if quitting c then Inr c
      else if maxQueued c \<noteq> 0 \<and> unat (maxQueued c) \<le> length (queue c) then Inl Blocked
      else Inr (c\<lparr>queue := queue c @ [ch]\<rparr>))"

section \<open>The fill algorithm\<close>

text \<open>
  \<^verbatim>\<open>memcpy(dst + dOff, src + sOff, n)\<close> and \<^verbatim>\<open>memset(dst + dOff, v, n)\<close> on buffers as
  lists. Both ranges must lie inside their buffers (anything else is undefined behaviour in
  C++); the statements below carry that as a hypothesis on the destination.
\<close>

definition memcpy :: "uint8 list \<Rightarrow> nat \<Rightarrow> uint8 list \<Rightarrow> nat \<Rightarrow> nat \<Rightarrow> uint8 list" where
  "memcpy dst dOff src sOff n = take dOff dst @ take n (drop sOff src) @ drop (dOff + n) dst"

definition memset :: "uint8 list \<Rightarrow> nat \<Rightarrow> uint8 \<Rightarrow> nat \<Rightarrow> uint8 list" where
  "memset dst dOff v n = take dOff dst @ replicate n v @ drop (dOff + n) dst"

text \<open>The local variables and reference parameters of \<^verbatim>\<open>fillBuffer\<close>.\<close>

record fill_state =
  buf :: "uint8 list"
  bufOff :: uint32
  numBytes :: uint32
  timeStamp :: real
  chunks :: Chunks
  finished :: bool

text \<open>The loop's first test:
  \<^verbatim>\<open>!curBuf() || (curBuf() && (curBytes() == curOffset()))\<close>.\<close>

definition needNext :: "Chunks \<Rightarrow> bool" where
  "needNext c \<longleftrightarrow> curBuf c = None \<or> (curBuf c \<noteq> None \<and> curBytes c = curOffset c)"

text \<open>\<^verbatim>\<open>(double)curOffset() / channelCount() / (sampleBits() / 8) / sampleRate()\<close>; the
  division of the sample bits by 8 is the integer one.\<close>

definition timeOffset :: "AudioOptions \<Rightarrow> Chunks \<Rightarrow> real" where
  "timeOffset opts c =
     real (unat (curOffset c)) / real (unat (AudioOptions.channelCount opts))
       / real (unat (sampleBits opts div 8)) / real (unat (sampleRate opts))"

text \<open>The rest of the loop body, from the timestamp to \<^verbatim>\<open>numBytes -= curBytes\<close>, run on a
  state whose current chunk is present. \<open>inOpts\<close> is the member \<^verbatim>\<open>mInOptions\<close>, read only
  on the input path while nothing has been copied yet.\<close>

definition fillCopy :: "AudioOptions option \<Rightarrow> bool \<Rightarrow> fill_state \<Rightarrow> fault + fill_state" where
  "fillCopy inOpts isInput s =
     (let c = chunks s;
          n = min (numBytes s) (curBytes c - curOffset c)
      in case curBuf c of
           None \<Rightarrow> Inl NullDeref
         | Some src \<Rightarrow>
            (if bufOff s = 0 \<and> isInput then
               (case inOpts of
                  None \<Rightarrow> Inl NullDeref
                | Some opts \<Rightarrow>
                    Inr (s\<lparr>timeStamp := curTs c + timeOffset opts c,
                           buf := memcpy (buf s) (unat (bufOff s)) src (unat (curOffset c)) (unat n),
                           bufOff := bufOff s + n,
                           chunks := incOffset c n,
                           numBytes := numBytes s - n\<rparr>))
             else
               Inr (s\<lparr>buf := memcpy (buf s) (unat (bufOff s)) src (unat (curOffset c)) (unat n),
                      bufOff := bufOff s + n,
                      chunks := incOffset c n,
                      numBytes := numBytes s - n\<rparr>)))"

text \<open>The \<^verbatim>\<open>break\<close> branch: zero the rest of the destination and set \<^verbatim>\<open>finished\<close>.\<close>

definition fillFinish :: "fill_state \<Rightarrow> Chunks \<Rightarrow> fill_state" where
  "fillFinish s c =
     s\<lparr>chunks := c,
       buf := memset (buf s) (unat (bufOff s)) 0 (unat (numBytes s)),
       finished := True\<rparr>"

text \<open>The \<^verbatim>\<open>while (numBytes)\<close> loop. When the test \<^const>\<open>needNext\<close> fails the current
  buffer is present, so the inner test \<^verbatim>\<open>!curBuf()\<close> is written once for both paths.\<close>

function fillLoop :: "AudioOptions option \<Rightarrow> bool \<Rightarrow> fill_state \<Rightarrow> fault + fill_state" where
  "fillLoop inOpts isInput s =
     (if numBytes s = 0 then Inr s
      else
        case (if needNext (chunks s) then waitNext (chunks s) else Inr (chunks s)) of
          Inl e \<Rightarrow> Inl e
        | Inr c \<Rightarrow>
            if needNext (chunks s) \<and> curBuf c = None then Inr (fillFinish s c)
            else (case fillCopy inOpts isInput (s\<lparr>chunks := c\<rparr>) of
                    Inl e \<Rightarrow> Inl e
                  | Inr s' \<Rightarrow> fillLoop inOpts isInput s'))"
  by pat_completeness auto

text \<open>Each iteration that does not leave the loop takes a chunk from the queue or copies at
  least one byte; this is what makes the loop terminate.\<close>

lemma waitNext_pop:
  "needNext c \<Longrightarrow> waitNext c = Inr c' \<Longrightarrow> curBuf c' \<noteq> None \<Longrightarrow>
   \<exists>ch. queue c = ch # queue c' \<and> current c' = Some ch \<and> headOffset c' = 0
      \<and> maxQueued c' = maxQueued c \<and> quitting c' = quitting c"
  by (auto simp: needNext_def waitNext_def curBuf_def curBytes_def curOffset_def
      split: option.splits list.splits if_splits)

lemma fillCopy_numBytes:
  "fillCopy inOpts isInput s = Inr s' \<Longrightarrow>
   numBytes s' = numBytes s - min (numBytes s) (curBytes (chunks s) - curOffset (chunks s))
   \<and> queue (chunks s') = queue (chunks s)"
  by (auto simp: fillCopy_def Let_def incOffset_def split: option.splits if_splits)

lemma unat_sub_min_less:
  fixes n d :: uint32
  assumes "n \<noteq> 0" "d \<noteq> 0"
  shows "unat (n - min n d) < unat n"
proof -
  have "min n d \<le> n" by simp
  moreover have "min n d \<noteq> 0" using assms by (simp add: min_def)
  ultimately show ?thesis
    by (simp add: unat_sub word_neq_0_conv unat_gt_0)
qed

lemma unat_sub_min_le:
  fixes n d :: uint32
  shows "unat (n - min n d) \<le> unat n"
  by (simp add: unat_sub)

lemma fillLoop_decreases:
  assumes nz: "numBytes s \<noteq> 0"
    and c: "(if needNext (chunks s) then waitNext (chunks s) else Inr (chunks s)) = Inr c"
    and nb: "\<not> (needNext (chunks s) \<and> curBuf c = None)"
    and cp: "fillCopy inOpts isInput (s\<lparr>chunks := c\<rparr>) = Inr s'"
  shows "length (queue (chunks s')) + unat (numBytes s')
         < length (queue (chunks s)) + unat (numBytes s)"
proof -
  have eq: "numBytes s' = numBytes s - min (numBytes s) (curBytes c - curOffset c)"
    and q: "queue (chunks s') = queue c"
    using fillCopy_numBytes [OF cp] by simp_all
  show ?thesis
  proof (cases "needNext (chunks s)")
    case True
    with c nb have "waitNext (chunks s) = Inr c" "curBuf c \<noteq> None" by auto
    from waitNext_pop [OF True this] have "length (queue c) < length (queue (chunks s))"
      by auto
    with eq q unat_sub_min_le [of "numBytes s" "curBytes c - curOffset c"] show ?thesis
      by simp
  next
    case False
    with c have cc: "c = chunks s" by simp
    from False have "curBytes c - curOffset c \<noteq> 0"
      by (auto simp: needNext_def cc)
    from unat_sub_min_less [OF nz this] eq q cc show ?thesis by simp
  qed
qed

termination fillLoop
  by (relation "measure (\<lambda>(inOpts, isInput, s). length (queue (chunks s)) + unat (numBytes s))")
    (simp_all add: fillLoop_decreases)

declare fillLoop.simps [simp del]

text \<open>\<^verbatim>\<open>fillBuffer(buf, numBytes, timeStamp, chunks, finished, isInput)\<close>: the value
  returned is \<^const>\<open>bufOff\<close> of the final state, which also holds the destination, the
  timestamp, the queue and the flag as the call leaves them.\<close>

definition fillBuffer ::
  "AudioOptions option \<Rightarrow> uint8 list \<Rightarrow> uint32 \<Rightarrow> Chunks \<Rightarrow> bool \<Rightarrow> bool \<Rightarrow> fault + fill_state" where
  "fillBuffer inOpts dst n c fin isInput =
     fillLoop inOpts isInput
       \<lparr>buf = dst, bufOff = 0, numBytes = n, timeStamp = 0, chunks = c, finished = fin\<rparr>"

text \<open>The head states of the loop's iterations: \<open>fillIter inOpts isInput s t\<close> holds when the
  loop started in \<open>s\<close> reaches the test \<^verbatim>\<open>while (numBytes)\<close> in state \<open>t\<close>. One step is one
  iteration that does not leave the loop.\<close>

inductive fillIter :: "AudioOptions option \<Rightarrow> bool \<Rightarrow> fill_state \<Rightarrow> fill_state \<Rightarrow> bool"
  for inOpts :: "AudioOptions option" and isInput :: bool
where
  start: "fillIter inOpts isInput s s"
| step: "fillIter inOpts isInput s t \<Longrightarrow> numBytes t \<noteq> 0 \<Longrightarrow>
         (if needNext (chunks t) then waitNext (chunks t) else Inr (chunks t)) = Inr c \<Longrightarrow>
         \<not> (needNext (chunks t) \<and> curBuf c = None) \<Longrightarrow>
         fillCopy inOpts isInput (t\<lparr>chunks := c\<rparr>) = Inr t' \<Longrightarrow>
         fillIter inOpts isInput s t'"

text \<open>Successive pushes onto one queue.\<close>

fun pushAll :: "Chunks \<Rightarrow> Chunk list \<Rightarrow> fault + Chunks" where
  "pushAll c [] = Inr c"
| "pushAll c (ch # chs) = (case push c ch of Inl e \<Rightarrow> Inl e | Inr c' \<Rightarrow> pushAll c' chs)"

text \<open>The queue's data invariant, from the specification's data model: every chunk has a
  buffer whose size fits \<^verbatim>\<open>uint32_t\<close>, and the head offset does not exceed the length of the
  current chunk.\<close>

definition wfChunk :: "Chunk \<Rightarrow> bool" where
  "wfChunk ch \<longleftrightarrow> chunk ch \<noteq> None \<and> chunkBytes ch < 2 ^ 32"

definition wfChunks :: "Chunks \<Rightarrow> bool" where
  "wfChunks c \<longleftrightarrow>
     list_all wfChunk (queue c) \<and>
     (case current c of None \<Rightarrow> True
      | Some ch \<Rightarrow> wfChunk ch \<and> unat (headOffset c) \<le> chunkBytes ch)"

text \<open>The bytes a queue still holds: the unread rest of the current chunk and the queued
  chunks.\<close>

definition remaining :: "Chunks \<Rightarrow> nat" where
  "remaining c =
     (case current c of None \<Rightarrow> 0 | Some ch \<Rightarrow> chunkBytes ch - unat (headOffset c))
     + sum_list (map chunkBytes (queue c))"

section \<open>Pushes and fills on one queue\<close>













section \<open>The stream context\<close>

record PaContext =
  mInOptions :: "AudioOptions option"
  mOutOptions :: "AudioOptions option"
  mInChunks :: Chunks
  mOutChunks :: Chunks
  mErrStr :: string
  mInLatency :: real

text \<open>Modelled from the spec: \<^verbatim>\<open>hasInput()\<close> (declared in \<^verbatim>\<open>PaContext.h\<close>), whether input is
  configured.\<close>

definition hasInput :: "PaContext \<Rightarrow> bool" where
  "hasInput ctx \<longleftrightarrow> mInOptions ctx \<noteq> None"

text \<open>Modelled from the spec: \<^verbatim>\<open>hasOutput()\<close> (declared in \<^verbatim>\<open>PaContext.h\<close>), whether output
  is configured.\<close>

definition hasOutput :: "PaContext \<Rightarrow> bool" where
  "hasOutput ctx \<longleftrightarrow> mOutOptions ctx \<noteq> None"

text \<open>Modelled from the spec: \<^verbatim>\<open>getInLatency()\<close> (declared in \<^verbatim>\<open>PaContext.h\<close>), the measured
  input latency, which the constructor stores in \<^verbatim>\<open>mInLatency\<close>.\<close>

definition getInLatency :: "PaContext \<Rightarrow> real" where
  "getInLatency ctx = mInLatency ctx"

text \<open>\<^verbatim>\<open>pullInChunk(numBytes, finished)\<close>. \<open>fresh\<close> is the content of the newly allocated
  result buffer of \<open>numBytes\<close> bytes, which C++ leaves indeterminate. The trimmed buffer is
  overwritten whole by its \<^verbatim>\<open>memcpy\<close>, so its initial content (written as zeros) does not
  show. The result is the chunk returned, the flag and the context with its input queue
  advanced.\<close>

definition pullInChunk ::
  "PaContext \<Rightarrow> uint8 list \<Rightarrow> uint32 \<Rightarrow> fault + (Chunk \<times> bool \<times> PaContext)" where
  "pullInChunk ctx fresh n =
     (case fillBuffer (mInOptions ctx) fresh n (mInChunks ctx) False True of
        Inl e \<Rightarrow> Inl e
      | Inr s \<Rightarrow>
          (let bytesRead = bufOff s;
               result = (if bytesRead \<noteq> n then
                           (if 0 = bytesRead then None
                            else Some (memcpy (replicate (unat bytesRead) 0) 0 (buf s) 0 (unat bytesRead)))
                         else Some (buf s))
           in Inr (\<lparr>chunk = result, ts = timeStamp s\<rparr>, finished s,
                   ctx\<lparr>mInChunks := chunks s\<rparr>)))"

text \<open>\<^verbatim>\<open>pushOutChunk(chunk)\<close>.\<close>

definition pushOutChunk :: "PaContext \<Rightarrow> Chunk \<Rightarrow> fault + PaContext" where
  "pushOutChunk ctx ch =
     (case push (mOutChunks ctx) ch of Inl e \<Rightarrow> Inl e
      | Inr c \<Rightarrow> Inr (ctx\<lparr>mOutChunks := c\<rparr>))"

text \<open>The status flags of the engine's callback (\<^verbatim>\<open>portaudio.h\<close>) and its return codes.\<close>

definition paInputUnderflow :: uint32 where "paInputUnderflow = 0x1"
definition paInputOverflow :: uint32 where "paInputOverflow = 0x2"
definition paOutputUnderflow :: uint32 where "paOutputUnderflow = 0x4"
definition paOutputOverflow :: uint32 where "paOutputOverflow = 0x8"
definition paPrimingOutput :: uint32 where "paPrimingOutput = 0x10"

definition paContinue :: int where "paContinue = 0"
definition paComplete :: int where "paComplete = 1"

text \<open>\<^verbatim>\<open>checkStatus(statusFlags)\<close>.\<close>

definition checkStatus :: "PaContext \<Rightarrow> uint32 \<Rightarrow> PaContext" where
  "checkStatus ctx statusFlags =
     (if statusFlags \<noteq> 0 then
        ctx\<lparr>mErrStr := ''portAudio status - ''
          @ (if statusFlags AND paInputUnderflow \<noteq> 0 then ''input underflow '' else [])
          @ (if statusFlags AND paInputOverflow \<noteq> 0 then ''input overflow '' else [])
          @ (if statusFlags AND paOutputUnderflow \<noteq> 0 then ''output underflow '' else [])
          @ (if statusFlags AND paOutputOverflow \<noteq> 0 then ''output overflow '' else [])
          @ (if statusFlags AND paPrimingOutput \<noteq> 0 then ''priming output '' else [])\<rparr>
      else ctx)"

text \<open>\<^verbatim>\<open>getErrStr(errStr, isInput)\<close>. \<open>errStr\<close> is the caller's string as passed in; the
  result is the value returned, the caller's string afterwards, the lines printed and the
  context. The options of the selected direction are dereferenced without a test.\<close>

definition getErrStr ::
  "PaContext \<Rightarrow> string \<Rightarrow> bool \<Rightarrow> fault + (bool \<times> string \<times> string list \<times> PaContext)" where
  "getErrStr ctx errStr isInput =
     (case (if isInput then mInOptions ctx else mOutOptions ctx) of
        None \<Rightarrow> Inl NullDeref
      | Some options \<Rightarrow>
          (let errStr' = (if closeOnError options then mErrStr ctx else errStr);
               printed = (if \<not> closeOnError options \<and> length (mErrStr ctx) \<noteq> 0
                          then [''AudioIO: '' @ mErrStr ctx @ [CHR 0x0A]] else [])
           in Inr (errStr' \<noteq> [], errStr', printed, ctx\<lparr>mErrStr := []\<rparr>)))"

text \<open>\<^verbatim>\<open>quit()\<close> of the context.\<close>

definition quitContext :: "PaContext \<Rightarrow> PaContext" where
  "quitContext ctx =
     (let ctx1 = (if mInOptions ctx \<noteq> None then ctx\<lparr>mInChunks := quit (mInChunks ctx)\<rparr> else ctx)
      in if mOutOptions ctx1 \<noteq> None then ctx1\<lparr>mOutChunks := quit (mOutChunks ctx1)\<rparr> else ctx1)"

text \<open>\<^verbatim>\<open>readPaBuffer(srcBuf, frameCount, inTimestamp)\<close>: the byte count is computed in
  \<^verbatim>\<open>uint32_t\<close>; \<open>srcBuf\<close> holds at least that many bytes.\<close>

definition readPaBuffer ::
  "PaContext \<Rightarrow> uint8 list \<Rightarrow> uint32 \<Rightarrow> real \<Rightarrow> fault + (bool \<times> PaContext)" where
  "readPaBuffer ctx srcBuf frameCount inTimestamp =
     (case mInOptions ctx of
        None \<Rightarrow> Inl NullDeref
      | Some opts \<Rightarrow>
          (let bytesAvailable = frameCount * AudioOptions.channelCount opts * sampleBits opts div 8;
               mem = memcpy (replicate (unat bytesAvailable) 0) 0 srcBuf 0 (unat bytesAvailable)
           in case push (mInChunks ctx) \<lparr>chunk = Some mem, ts = inTimestamp\<rparr> of
                Inl e \<Rightarrow> Inl e
              | Inr c \<Rightarrow> Inr (True, ctx\<lparr>mInChunks := c\<rparr>)))"

text \<open>\<^verbatim>\<open>fillPaBuffer(dstBuf, frameCount)\<close>: the result is the value returned, the destination
  and the context.\<close>

definition fillPaBuffer ::
  "PaContext \<Rightarrow> uint8 list \<Rightarrow> uint32 \<Rightarrow> fault + (bool \<times> uint8 list \<times> PaContext)" where
  "fillPaBuffer ctx dstBuf frameCount =
     (case mOutOptions ctx of
        None \<Rightarrow> Inl NullDeref
      | Some opts \<Rightarrow>
          (let bytesRemaining = frameCount * AudioOptions.channelCount opts * sampleBits opts div 8
           in case fillBuffer (mInOptions ctx) dstBuf bytesRemaining (mOutChunks ctx) False False of
                Inl e \<Rightarrow> Inl e
              | Inr s \<Rightarrow> Inr (\<not> finished s, buf s, ctx\<lparr>mOutChunks := chunks s\<rparr>)))"

text \<open>The engine's \<^verbatim>\<open>PaStreamCallbackTimeInfo\<close>.\<close>

record PaStreamCallbackTimeInfo =
  inputBufferAdcTime :: real
  currentTime :: real
  outputBufferDacTime :: real

text \<open>The timestamp \<^verbatim>\<open>PaCallback\<close> gives the input chunk. \<open>curTime\<close> is what
  \<^verbatim>\<open>getCurTime()\<close> returns, the engine's \<^verbatim>\<open>Pa_GetStreamTime\<close>.\<close>

definition inTimestamp :: "PaContext \<Rightarrow> real \<Rightarrow> PaStreamCallbackTimeInfo \<Rightarrow> real" where
  "inTimestamp ctx curTime timeInfo =
     (if inputBufferAdcTime timeInfo > 0 then inputBufferAdcTime timeInfo
      else curTime - getInLatency ctx)"

text \<open>\<^verbatim>\<open>PaCallback(input, output, frameCount, timeInfo, statusFlags, userData)\<close>. The frame
  count and the flags reach the context's methods as \<^verbatim>\<open>uint32_t\<close>. \<^verbatim>\<open>&&\<close> evaluates its
  right operand only when the left one holds. The result is the code returned, the output
  buffer and the context.\<close>

definition PaCallback ::
  "uint8 list \<Rightarrow> uint8 list \<Rightarrow> uint32 \<Rightarrow> PaStreamCallbackTimeInfo \<Rightarrow> uint32 \<Rightarrow> PaContext \<Rightarrow> real
     \<Rightarrow> fault + (int \<times> uint8 list \<times> PaContext)" where
  "PaCallback input output frameCount timeInfo statusFlags paContext curTime =
     (let inTs = inTimestamp paContext curTime timeInfo;
          ctx1 = checkStatus paContext statusFlags
      in case (if hasInput ctx1 then readPaBuffer ctx1 input frameCount inTs
               else Inr (False, ctx1)) of
           Inl e \<Rightarrow> Inl e
         | Inr (inOk, ctx2) \<Rightarrow>
             (let inRetCode = (if inOk then paContinue else paComplete)
              in case (if hasOutput ctx2 then fillPaBuffer ctx2 output frameCount
                       else Inr (False, output, ctx2)) of
                   Inl e \<Rightarrow> Inl e
                 | Inr (outOk, output', ctx3) \<Rightarrow>
                     (let outRetCode = (if outOk then paContinue else paComplete)
                      in Inr (if inRetCode = paComplete \<and> outRetCode = paComplete
                              then paComplete else paContinue,
                              output', ctx3))))"

text \<open>The two halves of \<^verbatim>\<open>PaCallback\<close>: the statements up to the assignment of
  \<^verbatim>\<open>inRetCode\<close> (the input timestamp, \<^verbatim>\<open>checkStatus\<close> and the input direction), which
  give that code and the context after the input chunk was pushed; and the statements after
  it (the output direction and the \<^verbatim>\<open>return\<close>). The callback is the first followed by the
  second (lemma \<open>PaCallback_phases\<close>).\<close>

definition PaCallbackInput ::
  "uint8 list \<Rightarrow> uint32 \<Rightarrow> PaStreamCallbackTimeInfo \<Rightarrow> uint32 \<Rightarrow> PaContext \<Rightarrow> real
     \<Rightarrow> fault + (int \<times> PaContext)" where
  "PaCallbackInput input frameCount timeInfo statusFlags paContext curTime =
     (let inTs = inTimestamp paContext curTime timeInfo;
          ctx1 = checkStatus paContext statusFlags
      in case (if hasInput ctx1 then readPaBuffer ctx1 input frameCount inTs
               else Inr (False, ctx1)) of
           Inl e \<Rightarrow> Inl e
         | Inr (inOk, ctx2) \<Rightarrow> Inr (if inOk then paContinue else paComplete, ctx2))"

definition PaCallbackOutput ::
  "int \<Rightarrow> PaContext \<Rightarrow> uint8 list \<Rightarrow> uint32 \<Rightarrow> fault + (int \<times> uint8 list \<times> PaContext)" where
  "PaCallbackOutput inRetCode ctx2 output frameCount =
     (case (if hasOutput ctx2 then fillPaBuffer ctx2 output frameCount
            else Inr (False, output, ctx2)) of
        Inl e \<Rightarrow> Inl e
      | Inr (outOk, output', ctx3) \<Rightarrow>
          (let outRetCode = (if outOk then paContinue else paComplete)
           in Inr (if inRetCode = paComplete \<and> outRetCode = paComplete
                   then paComplete else paContinue,
                   output', ctx3)))"

section \<open>Construction\<close>

text \<open>
  The audio engine is a black box: a record of what its calls answer during one
  construction. \<^verbatim>\<open>PaError\<close> and \<^verbatim>\<open>PaDeviceIndex\<close> are C \<^verbatim>\<open>int\<close>.
\<close>

record PaDeviceInfo =
  maxInputChannels :: int
  maxOutputChannels :: int
  defaultLowInputLatency :: real
  defaultLowOutputLatency :: real

record Engine =
  Pa_Initialize :: int
  Pa_GetDeviceCount :: int
  Pa_GetDefaultInputDevice :: int
  Pa_GetDefaultOutputDevice :: int
  Pa_GetDeviceInfo :: "int \<Rightarrow> PaDeviceInfo"
  Pa_IsFormatSupported :: "PaStreamParameters option \<Rightarrow> PaStreamParameters option \<Rightarrow> real \<Rightarrow> int"
  Pa_OpenStream :: "PaStreamParameters option \<Rightarrow> PaStreamParameters option \<Rightarrow> real \<Rightarrow> nat \<Rightarrow> int"
  inputLatency :: real

text \<open>Constants of \<^verbatim>\<open>portaudio.h\<close>.\<close>

definition paNoError :: int where "paNoError = 0"
definition paFormatIsSupported :: int where "paFormatIsSupported = 0"
definition paNoDevice :: int where "paNoDevice = - 1"
definition paFramesPerBufferUnspecified :: nat where "paFramesPerBufferUnspecified = 0"

definition paFloat32 :: nat where "paFloat32 = 0x1"
definition paInt32 :: nat where "paInt32 = 0x2"
definition paInt24 :: nat where "paInt24 = 0x4"
definition paInt16 :: nat where "paInt16 = 0x8"
definition paInt8 :: nat where "paInt8 = 0x10"

text \<open>The exceptions the constructor throws, in the order of the code; the engine's error
  code stands for its error text.\<close>

datatype ctor_error =
    CouldNotInitialize int
  | OptionsMissing
  | SampleRatesDiffer
  | NoDefaultDevice
  | ChannelCountExceeds
  | InvalidSampleFormat
  | FormatNotSupported int
  | CouldNotOpenStream int

text \<open>The \<^verbatim>\<open>switch\<close> of \<^verbatim>\<open>setParams\<close>; \<open>None\<close> is its \<^verbatim>\<open>default\<close> branch.\<close>

definition paSampleFormat :: "uint32 \<Rightarrow> nat option" where
  "paSampleFormat f =
     (if f = 1 then Some paFloat32
      else if f = 8 then Some paInt8
      else if f = 16 then Some paInt16
      else if f = 24 then Some paInt24
      else if f = 32 then Some paInt32
      else None)"

text \<open>The device \<^verbatim>\<open>setParams\<close> selects: the configured one, read as \<^verbatim>\<open>int32_t\<close>, when it
  is a valid index, the engine's default for the direction otherwise.\<close>

definition selectDevice :: "Engine \<Rightarrow> bool \<Rightarrow> AudioOptions \<Rightarrow> int" where
  "selectDevice eng isInput options =
     (let deviceID = sint (deviceID options)
      in if deviceID \<ge> 0 \<and> deviceID < Pa_GetDeviceCount eng then deviceID
         else if isInput then Pa_GetDefaultInputDevice eng else Pa_GetDefaultOutputDevice eng)"

text \<open>\<^verbatim>\<open>setParams(env, isInput, options, params, sampleRate)\<close>: the parameters and the sample
  rate it assigns, or the exception it throws (the build that is not for ARM).\<close>

definition setParams ::
  "Engine \<Rightarrow> bool \<Rightarrow> AudioOptions \<Rightarrow> ctor_error + (PaStreamParameters \<times> real)" where
  "setParams eng isInput options =
     (let dev = selectDevice eng isInput options
      in if dev = paNoDevice then Inl NoDefaultDevice
         else
           let info = Pa_GetDeviceInfo eng dev;
               cc = sint (AudioOptions.channelCount options);
               maxChannels = (if isInput then maxInputChannels info else maxOutputChannels info)
           in if cc > maxChannels then Inl ChannelCountExceeds
              else
                case paSampleFormat (AudioOptions.sampleFormat options) of
                  None \<Rightarrow> Inl InvalidSampleFormat
                | Some fmt \<Rightarrow>
                    Inr (\<lparr>device = dev, channelCount = cc, sampleFormat = fmt,
                          suggestedLatency = (if isInput then defaultLowInputLatency info
                                              else defaultLowOutputLatency info)\<rparr>,
                         real (unat (sampleRate options))))"

text \<open>\<^verbatim>\<open>if (options) setParams(...)\<close>: nothing is assigned for a direction that is not
  configured.\<close>

definition setParamsIf ::
  "Engine \<Rightarrow> bool \<Rightarrow> AudioOptions option \<Rightarrow> ctor_error + (PaStreamParameters \<times> real) option" where
  "setParamsIf eng isInput options =
     (case options of
        None \<Rightarrow> Inr None
      | Some opts \<Rightarrow> (case setParams eng isInput opts of Inl e \<Rightarrow> Inl e | Inr r \<Rightarrow> Inr (Some r)))"

text \<open>The constructor \<^verbatim>\<open>PaContext(env, inOptions, outOptions)\<close>, from the options as
  \<^verbatim>\<open>AudioOptions\<close> builds them: the context with its stream open, or the exception thrown.
  The local \<^verbatim>\<open>sampleRate\<close> is the one the last \<^verbatim>\<open>setParams\<close> call assigned.\<close>

definition newPaContext ::
  "Engine \<Rightarrow> AudioOptions option \<Rightarrow> AudioOptions option \<Rightarrow> ctor_error + PaContext" where
  "newPaContext eng inOptions outOptions =
     (if Pa_Initialize eng \<noteq> paNoError then Inl (CouldNotInitialize (Pa_Initialize eng))
      else if inOptions = None \<and> outOptions = None then Inl OptionsMissing
      else if (case (inOptions, outOptions) of
                 (Some i, Some out) \<Rightarrow> sampleRate i \<noteq> sampleRate out
               | _ \<Rightarrow> False)
           then Inl SampleRatesDiffer
      else
        case setParamsIf eng True inOptions of
          Inl e \<Rightarrow> Inl e
        | Inr inP \<Rightarrow>
           (case setParamsIf eng False outOptions of
              Inl e \<Rightarrow> Inl e
            | Inr outP \<Rightarrow>
               (let rate = (case outP of Some r \<Rightarrow> snd r
                            | None \<Rightarrow> (case inP of Some r \<Rightarrow> snd r | None \<Rightarrow> 0));
                    inParams = map_option fst inP;
                    outParams = map_option fst outP;
                    errCode = Pa_IsFormatSupported eng inParams outParams rate
                in if errCode \<noteq> paFormatIsSupported then Inl (FormatNotSupported errCode)
                   else
                     let errCode = Pa_OpenStream eng inParams outParams rate
                                     paFramesPerBufferUnspecified
                     in if errCode \<noteq> paNoError then Inl (CouldNotOpenStream errCode)
                        else Inr \<lparr>mInOptions = inOptions, mOutOptions = outOptions,
                                  mInChunks = newChunks (case inOptions of None \<Rightarrow> 0
                                                         | Some opts \<Rightarrow> maxQueue opts),
                                  mOutChunks = newChunks (case outOptions of None \<Rightarrow> 0
                                                          | Some opts \<Rightarrow> maxQueue opts),
                                  mErrStr = [], mInLatency = inputLatency eng\<rparr>)))"

text \<open>The exceptions thrown before the engine is asked whether it supports the format, and so
  before it is asked to open the stream.\<close>

definition earlyErrors :: "Engine \<Rightarrow> (ctor_error + PaContext) set" where
  "earlyErrors eng = {Inl (CouldNotInitialize (Pa_Initialize eng)), Inl OptionsMissing, Inl SampleRatesDiffer,
      Inl NoDefaultDevice, Inl ChannelCountExceeds, Inl InvalidSampleFormat}"

section \<open>Example inputs\<close>

text \<open>A stereo stream of 32-bit samples at 48 kHz: 8 bytes per frame.\<close>

definition exOpts :: AudioOptions where
  "exOpts = \<lparr>deviceID = 0, sampleRate = 48000, channelCount = 2, sampleFormat = 32,
             sampleBits = 32, maxQueue = 2, closeOnError = True\<rparr>"

text \<open>A context with input only, as the constructor leaves it, with a measured input latency
  of one second.\<close>

definition exInContext :: PaContext where
  "exInContext = \<lparr>mInOptions = Some exOpts, mOutOptions = None,
                   mInChunks = newChunks 2, mOutChunks = newChunks 0,
                   mErrStr = [], mInLatency = 1\<rparr>"

text \<open>A context with output only whose queue is empty and quitting.\<close>

definition exOutContext :: PaContext where
  "exOutContext = \<lparr>mInOptions = None, mOutOptions = Some exOpts,
                    mInChunks = newChunks 0, mOutChunks = quit (newChunks 2),
                    mErrStr = [], mInLatency = 0\<rparr>"

text \<open>The input-only context with a status message stored.\<close>

definition exErrContext :: PaContext where
  "exErrContext = exInContext\<lparr>mErrStr := ''portAudio status - input overflow ''\<rparr>"

text \<open>An engine with two devices, each of two channels, that accepts every format.\<close>

definition exEngine :: Engine where
  "exEngine = \<lparr>Pa_Initialize = 0, Pa_GetDeviceCount = 2,
                Pa_GetDefaultInputDevice = 0, Pa_GetDefaultOutputDevice = 1,
                Pa_GetDeviceInfo = (\<lambda>d. \<lparr>maxInputChannels = 2, maxOutputChannels = 2,
                                         defaultLowInputLatency = 0, defaultLowOutputLatency = 0\<rparr>),
                Pa_IsFormatSupported = (\<lambda>i out r. 0),
                Pa_OpenStream = (\<lambda>i out r n. 0),
                inputLatency = 1\<rparr>"

text \<open>A request for 256 bytes from a queue that is empty and quitting, into a destination
  that holds other bytes.\<close>

definition exEmptyFill :: fill_state where
  "exEmptyFill = \<lparr>buf = replicate 256 7, bufOff = 0, numBytes = 256, timeStamp = 0,
                   chunks = quit (newChunks 0), finished = False\<rparr>"

text \<open>A queue that holds one chunk of four bytes, timestamped 1.\<close>

definition exQueue4 :: Chunks where
  "exQueue4 = (newChunks 0)\<lparr>queue := [\<lparr>chunk = Some [1, 2, 3, 4], ts = 1\<rparr>]\<rparr>"

text \<open>The input-only context whose queue holds that chunk and is quitting.\<close>

definition exShortContext :: PaContext where
  "exShortContext = exInContext\<lparr>mInChunks := quit exQueue4\<rparr>"


text \<open>A context with both directions: the input-only context with an output queue added,
  which is new (no chunk has been pushed, and it is not quitting).\<close>

definition exDuplexContext :: PaContext where
  "exDuplexContext = exInContext\<lparr>mOutOptions := Some exOpts, mOutChunks := newChunks 2\<rparr>"



section \<open>The callback\<close>

text \<open>One callback on the input-only context: a frame of eight bytes, no hardware timestamp,
  stream time 5.\<close>

lemma ex_callback:
  "PaCallback [1,2,3,4,5,6,7,8] [] 1
     \<lparr>inputBufferAdcTime = 0, currentTime = 5, outputBufferDacTime = 0\<rparr> 0 exInContext 5
   = Inr (paContinue, [],
          exInContext\<lparr>mInChunks :=
            (newChunks 2)\<lparr>queue := [\<lparr>chunk = Some [1,2,3,4,5,6,7,8], ts = 4\<rparr>]\<rparr>\<rparr>)"
  by (simp add: PaCallback_def exInContext_def exOpts_def hasInput_def hasOutput_def
      readPaBuffer_def checkStatus_def push_def newChunks_def inTimestamp_def getInLatency_def
      memcpy_def paContinue_def paComplete_def Let_def)

text \<open>The same on the output-only context: one frame is requested from the exhausted queue.\<close>

lemma ex_out_callback:
  "PaCallback [] [7,7,7,7,7,7,7,7] 1
     \<lparr>inputBufferAdcTime = 0, currentTime = 0, outputBufferDacTime = 0\<rparr> 0 exOutContext 0
   = Inr (paComplete, replicate 8 0, exOutContext)"
  by (simp add: PaCallback_def exOutContext_def exOpts_def hasInput_def hasOutput_def
      fillPaBuffer_def fillBuffer_def fillLoop.simps needNext_def curBuf_def waitNext_def
      fillFinish_def memset_def quit_def
      checkStatus_def newChunks_def inTimestamp_def getInLatency_def
      paContinue_def paComplete_def Let_def)


lemma fillPaBuffer_Inr:
  assumes "fillPaBuffer ctx dst fc = Inr (b, out', ctx')"
  shows "\<exists>opts s. mOutOptions ctx = Some opts
          \<and> fillBuffer (mInOptions ctx) dst (fc * AudioOptions.channelCount opts * sampleBits opts div 8)
               (mOutChunks ctx) False False = Inr s
          \<and> b = (\<not> finished s) \<and> out' = buf s \<and> ctx' = ctx\<lparr>mOutChunks := chunks s\<rparr>"
  using assms by (auto simp: fillPaBuffer_def Let_def split: option.splits sum.splits)


lemma checkStatus_frame [simp]:
  "mInOptions (checkStatus ctx flags) = mInOptions ctx"
  "mOutOptions (checkStatus ctx flags) = mOutOptions ctx"
  "mInChunks (checkStatus ctx flags) = mInChunks ctx"
  "mOutChunks (checkStatus ctx flags) = mOutChunks ctx"
  "mInLatency (checkStatus ctx flags) = mInLatency ctx"
  by (simp_all add: checkStatus_def)



section \<open>The stored status message\<close>

text \<open>
  Claim C9. When the options of the selected direction exist, \<^verbatim>\<open>getErrStr\<close> returns and
  leaves the stored message empty under both policies. With \<^verbatim>\<open>closeOnError\<close> set the
  caller's string becomes the stored message and nothing is printed; without it the caller's
  string is left as it was and a non-empty stored message is printed. The value returned
  is true exactly when the caller's string is non-empty afterwards.
\<close>

theorem C9_getErrStr:
  assumes sel: "(if isInput then mInOptions ctx else mOutOptions ctx) = Some options"
  shows "\<exists>ret errStr' printed ctx'.
           getErrStr ctx errStr isInput = Inr (ret, errStr', printed, ctx')
         \<and> ctx' = ctx\<lparr>mErrStr := []\<rparr>
         \<and> errStr' = (if closeOnError options then mErrStr ctx else errStr)
         \<and> printed = (if \<not> closeOnError options \<and> mErrStr ctx \<noteq> []
                       then [''AudioIO: '' @ mErrStr ctx @ [CHR 0x0A]] else [])
         \<and> ret = (errStr' \<noteq> [])"
  using sel by (simp add: getErrStr_def Let_def)

theorem C9_getErrStr_witness:
  "\<exists>ret errStr' printed ctx'.
           getErrStr exErrContext [] True = Inr (ret, errStr', printed, ctx')
         \<and> ctx' = exErrContext\<lparr>mErrStr := []\<rparr>
         \<and> errStr' = ''portAudio status - input overflow ''
         \<and> printed = []
         \<and> ret = True"
proof -
  have "(if True then mInOptions exErrContext else mOutOptions exErrContext) = Some exOpts"
    by (simp add: exErrContext_def exInContext_def)
  from C9_getErrStr [OF this, of "[]"] show ?thesis
    by (simp add: exErrContext_def exInContext_def exOpts_def)
qed

section \<open>Construction: configuration errors and the device\<close>

lemma setParams_invalid_format:
  assumes "paSampleFormat (AudioOptions.sampleFormat opts) = None"
  shows "setParams eng isInput opts \<in> {Inl NoDefaultDevice, Inl ChannelCountExceeds, Inl InvalidSampleFormat}"
  using assms by (simp add: setParams_def Let_def)

lemma setParams_errors:
  "setParams eng isInput opts = Inl e \<Longrightarrow>
   e \<in> {NoDefaultDevice, ChannelCountExceeds, InvalidSampleFormat}"
  by (auto simp: setParams_def Let_def split: if_splits option.splits)

lemma setParams_format:
  "setParams eng isInput opts = Inr (p, r) \<Longrightarrow>
   paSampleFormat (AudioOptions.sampleFormat opts) = Some (PaStreamParameters.sampleFormat p)"
  by (auto simp: setParams_def Let_def split: if_splits option.splits)

lemma paSampleFormat_None:
  "f \<notin> {1, 8, 16, 24, 32} \<Longrightarrow> paSampleFormat f = None"
  by (simp add: paSampleFormat_def)

lemma newPaContext_none:
  "newPaContext eng None None \<in> {Inl (CouldNotInitialize (Pa_Initialize eng)), Inl OptionsMissing}"
  by (simp add: newPaContext_def)

lemma newPaContext_rates:
  "sampleRate i \<noteq> sampleRate out \<Longrightarrow>
   newPaContext eng (Some i) (Some out)
     \<in> {Inl (CouldNotInitialize (Pa_Initialize eng)), Inl SampleRatesDiffer}"
  by (simp add: newPaContext_def)

lemma setParamsIf_cases:
  "setParamsIf eng isInput None = Inr None"
  "setParamsIf eng isInput (Some opts) =
     (case setParams eng isInput opts of Inl e \<Rightarrow> Inl e | Inr r \<Rightarrow> Inr (Some r))"
  by (simp_all add: setParamsIf_def)

lemma newPaContext_in_invalid:
  assumes "paSampleFormat (AudioOptions.sampleFormat opts) = None"
  shows "newPaContext eng (Some opts) outOptions \<in> earlyErrors eng"
proof -
  from setParams_invalid_format [OF assms, of eng True]
  obtain e where e: "setParams eng True opts = Inl e" 
    and e': "e \<in> {NoDefaultDevice, ChannelCountExceeds, InvalidSampleFormat}"
    by auto
  then show ?thesis
    by (auto simp: newPaContext_def setParamsIf_cases earlyErrors_def split: option.splits)
qed

lemma newPaContext_out_invalid:
  assumes "paSampleFormat (AudioOptions.sampleFormat opts) = None"
  shows "newPaContext eng inOptions (Some opts) \<in> earlyErrors eng"
proof -
  from setParams_invalid_format [OF assms, of eng False]
  obtain e where e: "setParams eng False opts = Inl e" 
    and e': "e \<in> {NoDefaultDevice, ChannelCountExceeds, InvalidSampleFormat}"
    by auto
  show ?thesis
  proof (cases "setParamsIf eng True inOptions")
    case (Inl e1)
    then have "e1 \<in> {NoDefaultDevice, ChannelCountExceeds, InvalidSampleFormat}"
      by (cases inOptions) (auto simp: setParamsIf_cases split: sum.splits dest: setParams_errors)
    with Inl show ?thesis
      by (auto simp: newPaContext_def earlyErrors_def split: option.splits)
  next
    case (Inr a)
    with e e' show ?thesis
      by (auto simp: newPaContext_def setParamsIf_cases earlyErrors_def split: option.splits)
  qed
qed

lemma paSampleFormat_table:
  "paSampleFormat 1 = Some paFloat32" "paSampleFormat 8 = Some paInt8"
  "paSampleFormat 16 = Some paInt16" "paSampleFormat 24 = Some paInt24"
  "paSampleFormat 32 = Some paInt32"
  by (simp_all add: paSampleFormat_def)

lemma setParams_accepts:
  assumes "selectDevice eng isInput opts \<noteq> paNoDevice"
    and "sint (AudioOptions.channelCount opts)
           \<le> (if isInput then maxInputChannels (Pa_GetDeviceInfo eng (selectDevice eng isInput opts))
              else maxOutputChannels (Pa_GetDeviceInfo eng (selectDevice eng isInput opts)))"
    and "paSampleFormat (AudioOptions.sampleFormat opts) = Some fmt"
  shows "setParams eng isInput opts
     = Inr (\<lparr>device = selectDevice eng isInput opts,
             channelCount = sint (AudioOptions.channelCount opts),
             sampleFormat = fmt,
             suggestedLatency =
               (if isInput then defaultLowInputLatency (Pa_GetDeviceInfo eng (selectDevice eng isInput opts))
                else defaultLowOutputLatency (Pa_GetDeviceInfo eng (selectDevice eng isInput opts)))\<rparr>,
            real (unat (sampleRate opts)))"
  using assms by (simp add: setParams_def Let_def)

text \<open>The example engine opens a stream for the example options, and \<^verbatim>\<open>setParams\<close> maps
  their sample format 32 to \<open>paInt32\<close>.\<close>

lemma ex_construct_ok:
  "newPaContext exEngine (Some exOpts) None = Inr exInContext"
  by (simp add: newPaContext_def exEngine_def exOpts_def exInContext_def setParamsIf_def
      setParams_def selectDevice_def paSampleFormat_def paNoError_def paNoDevice_def
      paFormatIsSupported_def Let_def)

lemma ex_setParams:
  "setParams exEngine True exOpts
     = Inr (\<lparr>device = 0, channelCount = 2, sampleFormat = paInt32, suggestedLatency = 0\<rparr>, 48000)"
  by (simp add: exEngine_def exOpts_def setParams_def selectDevice_def paSampleFormat_def
      paNoDevice_def Let_def)

text \<open>
  Claim C8. Construction throws, before the engine is asked to open the stream, when
  neither options are present, when both are present with different sample rates, or when
  the sample format of a present one is none of 1, 8, 16, 24, 32. \<^verbatim>\<open>setParams\<close> accepts
  each of the five values, once the device and the channel count have passed, and assigns
  the corresponding engine format: 1 float32, 8 int8, 16 int16, 24 int24, 32 int32; it
  assigns no other pair, and it throws for every other value.
\<close>

theorem C8_construction_fails:
  "((inOptions = None \<and> outOptions = None
      \<or> (\<exists>i out. inOptions = Some i \<and> outOptions = Some out \<and> sampleRate i \<noteq> sampleRate out)
      \<or> (\<exists>opts. (inOptions = Some opts \<or> outOptions = Some opts)
                 \<and> AudioOptions.sampleFormat opts \<notin> {1, 8, 16, 24, 32}))
     \<longrightarrow> newPaContext eng inOptions outOptions
           \<in> {Inl (CouldNotInitialize (Pa_Initialize eng)), Inl OptionsMissing,
              Inl SampleRatesDiffer, Inl NoDefaultDevice, Inl ChannelCountExceeds,
              Inl InvalidSampleFormat})
   \<and> (\<forall>opts p r. setParams eng isInput opts = Inr (p, r) \<longrightarrow>
          AudioOptions.sampleFormat opts = 1 \<and> PaStreamParameters.sampleFormat p = paFloat32
        \<or> AudioOptions.sampleFormat opts = 8 \<and> PaStreamParameters.sampleFormat p = paInt8
        \<or> AudioOptions.sampleFormat opts = 16 \<and> PaStreamParameters.sampleFormat p = paInt16
        \<or> AudioOptions.sampleFormat opts = 24 \<and> PaStreamParameters.sampleFormat p = paInt24
        \<or> AudioOptions.sampleFormat opts = 32 \<and> PaStreamParameters.sampleFormat p = paInt32)
   \<and> (\<forall>opts. selectDevice eng isInput opts \<noteq> paNoDevice
          \<and> sint (AudioOptions.channelCount opts)
               \<le> (if isInput
                   then maxInputChannels (Pa_GetDeviceInfo eng (selectDevice eng isInput opts))
                   else maxOutputChannels (Pa_GetDeviceInfo eng (selectDevice eng isInput opts)))
          \<and> AudioOptions.sampleFormat opts \<in> {1, 8, 16, 24, 32}
        \<longrightarrow> (\<exists>p r. setParams eng isInput opts = Inr (p, r)
                \<and> PaStreamParameters.sampleFormat p
                    = (if AudioOptions.sampleFormat opts = 1 then paFloat32
                       else if AudioOptions.sampleFormat opts = 8 then paInt8
                       else if AudioOptions.sampleFormat opts = 16 then paInt16
                       else if AudioOptions.sampleFormat opts = 24 then paInt24
                       else paInt32)))
   \<and> (\<forall>opts. AudioOptions.sampleFormat opts \<notin> {1, 8, 16, 24, 32}
        \<longrightarrow> (\<exists>e. setParams eng isInput opts = Inl e))"
proof (intro conjI impI allI)
  assume bad: "inOptions = None \<and> outOptions = None
      \<or> (\<exists>i out. inOptions = Some i \<and> outOptions = Some out \<and> sampleRate i \<noteq> sampleRate out)
      \<or> (\<exists>opts. (inOptions = Some opts \<or> outOptions = Some opts)
                 \<and> AudioOptions.sampleFormat opts \<notin> {1, 8, 16, 24, 32})"
  have "newPaContext eng inOptions outOptions \<in> earlyErrors eng"
    using bad
  proof (elim disjE exE conjE)
    assume "inOptions = None" "outOptions = None"
    with newPaContext_none [of eng] show ?thesis by (auto simp: earlyErrors_def)
  next
    fix i out assume "inOptions = Some i" "outOptions = Some out" "sampleRate i \<noteq> sampleRate out"
    with newPaContext_rates [of i out eng] show ?thesis by (auto simp: earlyErrors_def)
  next
    fix opts assume "inOptions = Some opts" "AudioOptions.sampleFormat opts \<notin> {1, 8, 16, 24, 32}"
    with newPaContext_in_invalid [OF paSampleFormat_None] show ?thesis by simp
  next
    fix opts assume "outOptions = Some opts" "AudioOptions.sampleFormat opts \<notin> {1, 8, 16, 24, 32}"
    with newPaContext_out_invalid [OF paSampleFormat_None] show ?thesis by simp
  qed
  then show "newPaContext eng inOptions outOptions
           \<in> {Inl (CouldNotInitialize (Pa_Initialize eng)), Inl OptionsMissing,
              Inl SampleRatesDiffer, Inl NoDefaultDevice, Inl ChannelCountExceeds,
              Inl InvalidSampleFormat}"
    by (simp add: earlyErrors_def)
next
  fix opts p r
  assume "setParams eng isInput opts = Inr (p, r)"
  from setParams_format [OF this] show
    "AudioOptions.sampleFormat opts = 1 \<and> PaStreamParameters.sampleFormat p = paFloat32
        \<or> AudioOptions.sampleFormat opts = 8 \<and> PaStreamParameters.sampleFormat p = paInt8
        \<or> AudioOptions.sampleFormat opts = 16 \<and> PaStreamParameters.sampleFormat p = paInt16
        \<or> AudioOptions.sampleFormat opts = 24 \<and> PaStreamParameters.sampleFormat p = paInt24
        \<or> AudioOptions.sampleFormat opts = 32 \<and> PaStreamParameters.sampleFormat p = paInt32"
    by (auto simp: paSampleFormat_def split: if_splits)
next
  fix opts :: AudioOptions
  assume a: "selectDevice eng isInput opts \<noteq> paNoDevice
          \<and> sint (AudioOptions.channelCount opts)
               \<le> (if isInput
                   then maxInputChannels (Pa_GetDeviceInfo eng (selectDevice eng isInput opts))
                   else maxOutputChannels (Pa_GetDeviceInfo eng (selectDevice eng isInput opts)))
          \<and> AudioOptions.sampleFormat opts \<in> {1, 8, 16, 24, 32}"
  let ?fmt = "(if AudioOptions.sampleFormat opts = 1 then paFloat32
                       else if AudioOptions.sampleFormat opts = 8 then paInt8
                       else if AudioOptions.sampleFormat opts = 16 then paInt16
                       else if AudioOptions.sampleFormat opts = 24 then paInt24
                       else paInt32)"
  from a have "paSampleFormat (AudioOptions.sampleFormat opts) = Some ?fmt"
    by (auto simp: paSampleFormat_table)
  from setParams_accepts [OF _ _ this, of eng isInput] a
  show "\<exists>p r. setParams eng isInput opts = Inr (p, r) \<and> PaStreamParameters.sampleFormat p = ?fmt"
    by simp
next
  fix opts :: AudioOptions
  assume "AudioOptions.sampleFormat opts \<notin> {1, 8, 16, 24, 32}"
  from setParams_invalid_format [OF paSampleFormat_None [OF this], of eng isInput]
  show "\<exists>e. setParams eng isInput opts = Inl e" by auto
qed

theorem C8_construction_fails_witness:
  "newPaContext exEngine (Some (exOpts\<lparr>AudioOptions.sampleFormat := 12\<rparr>)) None
     \<in> {Inl (CouldNotInitialize (Pa_Initialize exEngine)), Inl OptionsMissing,
        Inl SampleRatesDiffer, Inl NoDefaultDevice, Inl ChannelCountExceeds,
        Inl InvalidSampleFormat}
   \<and> (\<exists>p r. setParams exEngine True exOpts = Inr (p, r)
          \<and> PaStreamParameters.sampleFormat p = paInt32)
   \<and> (\<exists>p r. setParams exEngine False (exOpts\<lparr>AudioOptions.sampleFormat := 1\<rparr>) = Inr (p, r)
          \<and> PaStreamParameters.sampleFormat p = paFloat32)"
proof -
  have "newPaContext exEngine (Some (exOpts\<lparr>AudioOptions.sampleFormat := 12\<rparr>)) None
     \<in> {Inl (CouldNotInitialize (Pa_Initialize exEngine)), Inl OptionsMissing,
        Inl SampleRatesDiffer, Inl NoDefaultDevice, Inl ChannelCountExceeds,
        Inl InvalidSampleFormat}"
    using C8_construction_fails [of "Some (exOpts\<lparr>AudioOptions.sampleFormat := 12\<rparr>)" None exEngine True]
    by (simp add: exOpts_def)
  moreover have "\<exists>p r. setParams exEngine True exOpts = Inr (p, r)
          \<and> PaStreamParameters.sampleFormat p = paInt32"
    using C8_construction_fails [of None None exEngine True,
        THEN conjunct2, THEN conjunct2, THEN conjunct1, rule_format, of exOpts]
    by (simp add: exOpts_def exEngine_def selectDevice_def paNoDevice_def)
  moreover have "\<exists>p r. setParams exEngine False (exOpts\<lparr>AudioOptions.sampleFormat := 1\<rparr>) = Inr (p, r)
          \<and> PaStreamParameters.sampleFormat p = paFloat32"
    using C8_construction_fails [of None None exEngine False,
        THEN conjunct2, THEN conjunct2, THEN conjunct1, rule_format,
        of "exOpts\<lparr>AudioOptions.sampleFormat := 1\<rparr>"]
    by (simp add: exOpts_def exEngine_def selectDevice_def paNoDevice_def)
  ultimately show ?thesis by blast
qed



lemma selectDevice_in_range:
  "0 \<le> sint (deviceID opts) \<Longrightarrow> sint (deviceID opts) < Pa_GetDeviceCount eng \<Longrightarrow>
   selectDevice eng isInput opts = sint (deviceID opts)"
  by (simp add: selectDevice_def Let_def)





section \<open>Properties of the fill loop\<close>

text \<open>What the accessors return on a well-formed queue, and what \<^verbatim>\<open>waitNext\<close> and one copy do
  to the invariant and to the number of bytes the queue holds.\<close>

lemma wf_current:
  assumes "wfChunks c" and "current c = Some ch"
  shows "curBuf c = chunk ch" and "chunk ch \<noteq> None" and "unat (curBytes c) = chunkBytes ch"
    and "unat (curOffset c) \<le> chunkBytes ch"
    and "unat (curBytes c - curOffset c) = chunkBytes ch - unat (headOffset c)"
    and "curOffset c \<le> curBytes c"
proof -
  from assms have w: "wfChunk ch" and le: "unat (headOffset c) \<le> chunkBytes ch"
    by (simp_all add: wfChunks_def)
  show "curBuf c = chunk ch" using assms by (simp add: curBuf_def)
  show "chunk ch \<noteq> None" using w by (simp add: wfChunk_def)
  from w have "chunkBytes ch < 2 ^ LENGTH(32)" by (simp add: wfChunk_def)
  from of_nat_inverse [OF refl this] show ub: "unat (curBytes c) = chunkBytes ch"
    using assms by (simp add: curBytes_def)
  show "unat (curOffset c) \<le> chunkBytes ch" using le by (simp add: curOffset_def)
  with ub show oc: "curOffset c \<le> curBytes c" by (simp add: word_le_nat_alt)
  from unat_sub [OF oc] ub show "unat (curBytes c - curOffset c) = chunkBytes ch - unat (headOffset c)"
    by (simp add: curOffset_def)
qed

lemma curBuf_current:
  "curBuf c \<noteq> None \<Longrightarrow> \<exists>ch. current c = Some ch"
  by (simp add: curBuf_def split: option.splits)

lemma wf_needNext_remaining:
  assumes wf: "wfChunks c" and nn: "needNext c"
  shows "remaining c = sum_list (map chunkBytes (queue c))"
    and "(case current c of None \<Rightarrow> True | Some ch \<Rightarrow> headOffset c = of_nat (chunkBytes ch))"
proof -
  have "(case current c of None \<Rightarrow> True | Some ch \<Rightarrow> headOffset c = of_nat (chunkBytes ch))
    \<and> (case current c of None \<Rightarrow> 0 | Some ch \<Rightarrow> chunkBytes ch - unat (headOffset c)) = 0"
  proof (cases "current c")
    case None
    then show ?thesis by simp
  next
    case (Some ch)
    from wf_current [OF wf Some] nn have eq: "curBytes c = curOffset c"
      by (auto simp: needNext_def)
    then have "unat (curBytes c) = unat (curOffset c)" by simp
    with wf_current(3) [OF wf Some] have "unat (headOffset c) = chunkBytes ch"
      by (simp add: curOffset_def)
    moreover from eq Some have "headOffset c = of_nat (chunkBytes ch)"
      by (simp add: curBytes_def curOffset_def)
    ultimately show ?thesis using Some by simp
  qed
  then show "remaining c = sum_list (map chunkBytes (queue c))"
    and "(case current c of None \<Rightarrow> True | Some ch \<Rightarrow> headOffset c = of_nat (chunkBytes ch))"
    by (simp_all add: remaining_def)
qed

lemma waitNext_wf:
  assumes wf: "wfChunks c" and nn: "needNext c" and w: "waitNext c = Inr c'"
  shows "wfChunks c'" and "remaining c' = remaining c"
    and "curBuf c' = None \<Longrightarrow> remaining c = 0"
    and "curBuf c' = None \<Longrightarrow> queue c = [] \<and> quitting c"
    and "quitting c' = quitting c"
proof -
  note r = wf_needNext_remaining [OF wf nn]
  show "wfChunks c'"
    using w wf r(2) by (auto simp: waitNext_def wfChunks_def split: list.splits if_splits)
  show "remaining c' = remaining c"
    using w r by (auto simp: waitNext_def remaining_def split: list.splits if_splits)
  show "quitting c' = quitting c"
    using w r by (auto simp: waitNext_def split: list.splits if_splits)
  assume "curBuf c' = None"
  with w wf r show "remaining c = 0" "queue c = [] \<and> quitting c"
    by (auto simp: waitNext_def wfChunks_def wfChunk_def curBuf_def split: list.splits if_splits)
qed

lemma waitNext_returns:
  assumes "quitting c \<or> queue c \<noteq> []"
  shows "\<exists>c'. waitNext c = Inr c'"
  using assms by (auto simp: waitNext_def split: list.splits)

lemma fillLoop_zero: "numBytes s = 0 \<Longrightarrow> fillLoop inOpts isInput s = Inr s"
  by (simp add: fillLoop.simps)

lemma fillLoop_blocked:
  "numBytes s \<noteq> 0 \<Longrightarrow>
   (if needNext (chunks s) then waitNext (chunks s) else Inr (chunks s)) = Inl e \<Longrightarrow>
   fillLoop inOpts isInput s = Inl e"
  by (subst fillLoop.simps) simp

lemma fillLoop_finish:
  "numBytes s \<noteq> 0 \<Longrightarrow>
   (if needNext (chunks s) then waitNext (chunks s) else Inr (chunks s)) = Inr c \<Longrightarrow>
   needNext (chunks s) \<and> curBuf c = None \<Longrightarrow>
   fillLoop inOpts isInput s = Inr (fillFinish s c)"
  by (subst fillLoop.simps) simp

lemma fillLoop_copy:
  "numBytes s \<noteq> 0 \<Longrightarrow>
   (if needNext (chunks s) then waitNext (chunks s) else Inr (chunks s)) = Inr c \<Longrightarrow>
   \<not> (needNext (chunks s) \<and> curBuf c = None) \<Longrightarrow>
   fillLoop inOpts isInput s =
     (case fillCopy inOpts isInput (s\<lparr>chunks := c\<rparr>) of
        Inl e \<Rightarrow> Inl e | Inr s1 \<Rightarrow> fillLoop inOpts isInput s1)"
  by (subst fillLoop.simps) auto

lemma acquire_wf:
  assumes wf: "wfChunks c"
    and a: "(if needNext c then waitNext c else Inr c) = Inr c'"
  shows "wfChunks c'" and "remaining c' = remaining c" and "quitting c' = quitting c"
    and "needNext c \<and> curBuf c' = None \<Longrightarrow> remaining c = 0"
    and "\<not> (needNext c \<and> curBuf c' = None) \<Longrightarrow> curBuf c' \<noteq> None"
proof -
  show "wfChunks c'" "remaining c' = remaining c" "quitting c' = quitting c"
    using waitNext_wf(1,2,5) [OF wf, of c'] a wf by (auto split: if_splits)
  show "needNext c \<and> curBuf c' = None \<Longrightarrow> remaining c = 0"
    using waitNext_wf(3) [OF wf, of c'] a by (auto split: if_splits)
  show "\<not> (needNext c \<and> curBuf c' = None) \<Longrightarrow> curBuf c' \<noteq> None"
    using a by (auto simp: needNext_def split: if_splits)
qed

lemma length_memcpy:
  "dOff + n \<le> length dst \<Longrightarrow> sOff + n \<le> length src \<Longrightarrow>
   length (memcpy dst dOff src sOff n) = length dst"
  by (simp add: memcpy_def)

lemma length_memset:
  "dOff + n \<le> length dst \<Longrightarrow> length (memset dst dOff v n) = length dst"
  by (simp add: memset_def)

lemma nth_memset:
  "dOff + n \<le> length dst \<Longrightarrow> dOff \<le> i \<Longrightarrow> i < dOff + n \<Longrightarrow> memset dst dOff v n ! i = v"
  by (auto simp: memset_def nth_append)

lemma fillCopy_fields:
  assumes "fillCopy inOpts isInput s = Inr s'"
  shows "\<exists>src. curBuf (chunks s) = Some src
         \<and> buf s' = memcpy (buf s) (unat (bufOff s)) src (unat (curOffset (chunks s)))
                      (unat (min (numBytes s) (curBytes (chunks s) - curOffset (chunks s))))"
    and "bufOff s' = bufOff s + min (numBytes s) (curBytes (chunks s) - curOffset (chunks s))"
    and "numBytes s' = numBytes s - min (numBytes s) (curBytes (chunks s) - curOffset (chunks s))"
    and "chunks s' = incOffset (chunks s) (min (numBytes s) (curBytes (chunks s) - curOffset (chunks s)))"
    and "finished s' = finished s"
  using assms
  by (auto simp: fillCopy_def Let_def split: option.splits if_splits)

lemma fillCopy_step:
  fixes s :: fill_state
  defines "n \<equiv> min (numBytes s) (curBytes (chunks s) - curOffset (chunks s))"
  assumes wf: "wfChunks (chunks s)" and cb: "curBuf (chunks s) \<noteq> None"
    and bound: "unat (bufOff s) + unat (numBytes s) < 2 ^ 32"
    and cp: "fillCopy inOpts isInput s = Inr s'"
  shows "unat n \<le> unat (numBytes s)" and "unat n \<le> remaining (chunks s)"
    and "unat (bufOff s') = unat (bufOff s) + unat n"
    and "unat (numBytes s') = unat (numBytes s) - unat n"
    and "wfChunks (chunks s')"
    and "remaining (chunks s') = remaining (chunks s) - unat n"
    and "quitting (chunks s') = quitting (chunks s)"
    and "finished s' = finished s"
    and "unat (bufOff s) + unat (numBytes s) \<le> length (buf s) \<Longrightarrow> length (buf s') = length (buf s)"
proof -
  from curBuf_current [OF cb] obtain ch where cur: "current (chunks s) = Some ch" by blast
  note w = wf_current [OF wf cur]
  note f = fillCopy_fields [OF cp, folded n_def]
  have nle: "n \<le> numBytes s" by (simp add: n_def)
  then show n1: "unat n \<le> unat (numBytes s)" by (simp add: word_le_nat_alt)
  have "n \<le> curBytes (chunks s) - curOffset (chunks s)" by (simp add: n_def)
  then have n2: "unat n \<le> chunkBytes ch - unat (headOffset (chunks s))"
    using w(5) by (simp add: word_le_nat_alt)
  then show "unat n \<le> remaining (chunks s)" using cur by (simp add: remaining_def)
  from n1 bound have "unat (bufOff s) + unat n < 2 ^ LENGTH(32)" by simp
  then have "unat (bufOff s + n) = unat (bufOff s) + unat n" by (simp only: unat_add_lem)
  then show "unat (bufOff s') = unat (bufOff s) + unat n" by (simp add: f(2))
  from unat_sub [OF nle] show "unat (numBytes s') = unat (numBytes s) - unat n" by (simp add: f(3))
  from w(4) n2 have hn: "unat (headOffset (chunks s)) + unat n \<le> chunkBytes ch"
    by (simp add: curOffset_def)
  from hn have "unat (headOffset (chunks s)) + unat n \<le> chunkBytes ch" .
  moreover from wf cur have "chunkBytes ch < 2 ^ LENGTH(32)" by (simp add: wfChunks_def wfChunk_def)
  ultimately have "unat (headOffset (chunks s)) + unat n < 2 ^ LENGTH(32)" by simp
  then have off: "unat (headOffset (chunks s) + n) = unat (headOffset (chunks s)) + unat n"
    by (simp only: unat_add_lem)
  show "wfChunks (chunks s')"
    using wf cur off hn by (simp add: f(4) incOffset_def wfChunks_def)
  show "remaining (chunks s') = remaining (chunks s) - unat n"
    using cur off hn by (simp add: f(4) incOffset_def remaining_def)
  show "quitting (chunks s') = quitting (chunks s)" by (simp add: f(4) incOffset_def)
  show "finished s' = finished s" by (rule f(5))
  assume len: "unat (bufOff s) + unat (numBytes s) \<le> length (buf s)"
  from f(1) obtain src where src: "curBuf (chunks s) = Some src"
    and b: "buf s' = memcpy (buf s) (unat (bufOff s)) src (unat (curOffset (chunks s))) (unat n)"
    by blast
  from src w(1) have "chunkBytes ch = length src" by (simp add: chunkBytes_def)
  with n2 w(4) have "unat (curOffset (chunks s)) + unat n \<le> length src"
    by (simp add: curOffset_def)
  moreover from len n1 have "unat (bufOff s) + unat n \<le> length (buf s)" by simp
  ultimately show "length (buf s') = length (buf s)"
    by (simp add: b length_memcpy)
qed

lemma fillFinish_fields:
  "chunks (fillFinish s c) = c" "bufOff (fillFinish s c) = bufOff s"
  "finished (fillFinish s c)" "timeStamp (fillFinish s c) = timeStamp s"
  "buf (fillFinish s c) = memset (buf s) (unat (bufOff s)) 0 (unat (numBytes s))"
  by (simp_all add: fillFinish_def)


lemma fillCopy_returns:
  assumes "curBuf (chunks s) \<noteq> None" and "isInput \<longrightarrow> inOpts \<noteq> None"
  shows "\<exists>s'. fillCopy inOpts isInput s = Inr s'"
  using assms by (auto simp: fillCopy_def Let_def split: option.splits)

lemma acquire_returns:
  assumes wf: "wfChunks c" and nz: "0 < n" and ok: "quitting c \<or> n \<le> remaining c"
  shows "\<exists>c'. (if needNext c then waitNext c else Inr c) = Inr c'"
proof (cases "needNext c")
  case True
  have "quitting c \<or> queue c \<noteq> []"
  proof (rule disjCI)
    assume "\<not> queue c \<noteq> []"
    then have "remaining c = 0" using wf_needNext_remaining(1) [OF wf True] by simp
    with nz ok show "quitting c" by simp
  qed
  from waitNext_returns [OF this] True show ?thesis by simp
next
  case False
  then show ?thesis by simp
qed

lemma fillLoop_returns:
  assumes "wfChunks (chunks s)" and "unat (bufOff s) + unat (numBytes s) < 2 ^ 32"
    and "quitting (chunks s) \<or> unat (numBytes s) \<le> remaining (chunks s)"
    and "isInput \<longrightarrow> inOpts \<noteq> None"
  shows "\<exists>s'. fillLoop inOpts isInput s = Inr s'"
  using assms
proof (induction inOpts isInput s rule: fillLoop.induct)
  case (1 inOpts isInput s)
  note wf = \<open>wfChunks (chunks s)\<close>
  note bound = \<open>unat (bufOff s) + unat (numBytes s) < 2 ^ 32\<close>
  note ok = \<open>quitting (chunks s) \<or> unat (numBytes s) \<le> remaining (chunks s)\<close>
  note io = \<open>isInput \<longrightarrow> inOpts \<noteq> None\<close>
  show ?case
  proof (cases "numBytes s = 0")
    case True
    then show ?thesis by (simp add: fillLoop_zero)
  next
    case nz: False
    then have nz': "0 < unat (numBytes s)" by (simp add: unat_gt_0)
    from acquire_returns [OF wf nz' ok] obtain c where
      ac: "(if needNext (chunks s) then waitNext (chunks s) else Inr (chunks s)) = Inr c" by blast
    note a = acquire_wf [OF wf ac]
    show ?thesis
    proof (cases "needNext (chunks s) \<and> curBuf c = None")
      case True
      from fillLoop_finish [OF nz ac True] show ?thesis by simp
    next
      case False
      have wfc: "wfChunks (chunks (s\<lparr>chunks := c\<rparr>))" using a(1) by simp
      have cbc: "curBuf (chunks (s\<lparr>chunks := c\<rparr>)) \<noteq> None" using a(5) [OF False] by simp
      have bc: "unat (bufOff (s\<lparr>chunks := c\<rparr>)) + unat (numBytes (s\<lparr>chunks := c\<rparr>)) < 2 ^ 32"
        using bound by simp
      from fillCopy_returns [OF cbc io] obtain s1 where
        cp: "fillCopy inOpts isInput (s\<lparr>chunks := c\<rparr>) = Inr s1" by blast
      note st = fillCopy_step [OF wfc cbc bc cp]
      define n where "n = unat (min (numBytes s) (curBytes c - curOffset c))"
      have n1: "n \<le> unat (numBytes s)" and n2: "n \<le> remaining (chunks s)"
        and b1: "unat (bufOff s1) = unat (bufOff s) + n"
        and m1: "unat (numBytes s1) = unat (numBytes s) - n"
        and w1: "wfChunks (chunks s1)"
        and rm: "remaining (chunks s1) = remaining (chunks s) - n"
        and q1: "quitting (chunks s1) = quitting (chunks s)"
        using st(1-7) a(2,3) by (simp_all add: n_def)
      from b1 m1 n1 bound have bd1: "unat (bufOff s1) + unat (numBytes s1) < 2 ^ 32" by simp
      from ok q1 m1 rm n1 n2 have ok1: "quitting (chunks s1) \<or> unat (numBytes s1) \<le> remaining (chunks s1)"
        by auto
      from "1.IH" [OF nz ac False cp w1 bd1 ok1 io] fillLoop_copy [OF nz ac False, of inOpts isInput] cp
      show ?thesis by simp
    qed
  qed
qed

lemma nth_memset_outside:
  "dOff + n \<le> length dst \<Longrightarrow> i < dOff \<or> dOff + n \<le> i \<Longrightarrow> memset dst dOff v n ! i = dst ! i"
  by (auto simp: memset_def nth_append)

section \<open>Exhaustion\<close>

text \<open>
  Claim C2. In an iteration with \<open>numBytes > 0\<close> in which \<^verbatim>\<open>waitNext()\<close> is called and
  returns with no current chunk, the loop returns at once, without an error: \<open>finished\<close> is
  set, the \<open>numBytes\<close> bytes of the destination from the write position on are zero, the
  bytes outside that range and the write position are as before.
\<close>

theorem C2_exhausted_zero_fill:
  assumes nz: "numBytes s \<noteq> 0"
    and nn: "needNext (chunks s)"
    and w: "waitNext (chunks s) = Inr c" and none: "curBuf c = None"
    and len: "unat (bufOff s) + unat (numBytes s) \<le> length (buf s)"
  shows "\<exists>s'. fillLoop inOpts isInput s = Inr s'
          \<and> finished s' \<and> bufOff s' = bufOff s \<and> chunks s' = c
          \<and> length (buf s') = length (buf s)
          \<and> (\<forall>i. unat (bufOff s) \<le> i \<and> i < unat (bufOff s) + unat (numBytes s)
                 \<longrightarrow> buf s' ! i = 0)
          \<and> (\<forall>i. i < unat (bufOff s) \<or> unat (bufOff s) + unat (numBytes s) \<le> i
                 \<longrightarrow> buf s' ! i = buf s ! i)"
proof -
  from nn w have a: "(if needNext (chunks s) then waitNext (chunks s) else Inr (chunks s)) = Inr c"
    by simp
  from nn none have b: "needNext (chunks s) \<and> curBuf c = None" by simp
  from fillLoop_finish [OF nz a b]
  have "fillLoop inOpts isInput s = Inr (fillFinish s c)" .
  then show ?thesis
    using len by (simp add: fillFinish_fields length_memset nth_memset nth_memset_outside)
qed

theorem C2_exhausted_zero_fill_witness:
  "\<exists>s'. fillBuffer None (replicate 256 7) 256 (quit (newChunks 0)) False False = Inr s'
      \<and> finished s' \<and> bufOff s' = 0 \<and> buf s' = replicate 256 0"
proof -
  have nz: "numBytes exEmptyFill \<noteq> 0" by (simp add: exEmptyFill_def)
  have nn: "needNext (chunks exEmptyFill)"
    by (simp add: exEmptyFill_def needNext_def curBuf_def quit_def newChunks_def)
  have w: "waitNext (chunks exEmptyFill) = Inr (quit (newChunks 0))"
    by (simp add: exEmptyFill_def waitNext_def quit_def newChunks_def)
  have none: "curBuf (quit (newChunks 0)) = None"
    by (simp add: curBuf_def quit_def newChunks_def)
  have len: "unat (bufOff exEmptyFill) + unat (numBytes exEmptyFill) \<le> length (buf exEmptyFill)"
    by (simp add: exEmptyFill_def)
  from C2_exhausted_zero_fill [OF nz nn w none len, of None False]
  obtain s' where r: "fillLoop None False exEmptyFill = Inr s'"
    and f: "finished s'" "bufOff s' = 0" "length (buf s') = 256"
    and z: "\<forall>i. i < 256 \<longrightarrow> buf s' ! i = 0"
    by (auto simp: exEmptyFill_def)
  from f(3) z have "buf s' = replicate 256 0"
    by (simp add: list_eq_iff_nth_eq)
  with r f show ?thesis by (simp add: fillBuffer_def exEmptyFill_def)
qed

section \<open>The head offset\<close>

text \<open>Along the iterations of the loop the queue stays well formed and the write position
  plus the bytes still requested stays what it was; the loop started at the head of an
  iteration gives the result of the whole loop.\<close>

lemma fillIter_inv:
  assumes "fillIter inOpts isInput s t" and "wfChunks (chunks s)"
    and "unat (bufOff s) + unat (numBytes s) < 2 ^ 32"
  shows "wfChunks (chunks t)
       \<and> unat (bufOff t) + unat (numBytes t) = unat (bufOff s) + unat (numBytes s)"
  using assms
proof (induction rule: fillIter.induct)
  case (start s)
  then show ?case by simp
next
  case (step s t c t')
  then have wf: "wfChunks (chunks t)"
    and sum: "unat (bufOff t) + unat (numBytes t) = unat (bufOff s) + unat (numBytes s)"
    by simp_all
  note a = acquire_wf [OF wf step.hyps(3)]
  have wfc: "wfChunks (chunks (t\<lparr>chunks := c\<rparr>))" using a(1) by simp
  have cbc: "curBuf (chunks (t\<lparr>chunks := c\<rparr>)) \<noteq> None" using a(5) [OF step.hyps(4)] by simp
  have bc: "unat (bufOff (t\<lparr>chunks := c\<rparr>)) + unat (numBytes (t\<lparr>chunks := c\<rparr>)) < 2 ^ 32"
    using sum step.prems(2) by simp
  note st = fillCopy_step [OF wfc cbc bc step.hyps(5)]
  from st(1,3,4,5) sum show ?case by simp
qed


text \<open>
  Claim C6. In every iteration of \<^verbatim>\<open>fillBuffer\<close> on a well-formed queue that reaches the
  copy, a current chunk is present, the amount passed to \<^verbatim>\<open>incOffset\<close> is
  \<open>min numBytes (curBytes - curOffset)\<close>, which is at most \<open>curBytes - curOffset\<close> (a
  difference that does not wrap, since \<open>curOffset \<le> curBytes\<close>), and the head offset after
  the call is the old one plus that amount and does not exceed the length of the current
  chunk.
\<close>

theorem C6_incOffset_precondition:
  assumes wf: "wfChunks c0"
    and it: "fillIter inOpts isInput
               \<lparr>buf = dst, bufOff = 0, numBytes = n0, timeStamp = 0, chunks = c0, finished = fin\<rparr> t"
    and nz: "numBytes t \<noteq> 0"
    and ac: "(if needNext (chunks t) then waitNext (chunks t) else Inr (chunks t)) = Inr c"
    and nb: "\<not> (needNext (chunks t) \<and> curBuf c = None)"
    and cp: "fillCopy inOpts isInput (t\<lparr>chunks := c\<rparr>) = Inr t'"
  shows "\<exists>ch. current c = Some ch
          \<and> chunks t' = incOffset c (min (numBytes t) (curBytes c - curOffset c))
          \<and> curOffset c \<le> curBytes c
          \<and> min (numBytes t) (curBytes c - curOffset c) \<le> curBytes c - curOffset c
          \<and> unat (curOffset (chunks t'))
              = unat (curOffset c) + unat (min (numBytes t) (curBytes c - curOffset c))
          \<and> unat (curOffset (chunks t')) \<le> chunkBytes ch
          \<and> current (chunks t') = Some ch"
proof -
  have "unat (bufOff \<lparr>buf = dst, bufOff = 0, numBytes = n0, timeStamp = 0, chunks = c0, finished = fin\<rparr>)
      + unat (numBytes \<lparr>buf = dst, bufOff = 0, numBytes = n0, timeStamp = 0, chunks = c0, finished = fin\<rparr>)
      < 2 ^ 32"
    using unsigned_less [of n0, where 'a = nat] by simp
  with fillIter_inv [OF it] wf have wft: "wfChunks (chunks t)" by simp
  note a = acquire_wf [OF wft ac]
  from curBuf_current [OF a(5) [OF nb]] obtain ch where cur: "current c = Some ch" by blast
  note w = wf_current [OF a(1) cur]
  let ?n = "min (numBytes t) (curBytes c - curOffset c)"
  from fillCopy_fields(4) [OF cp] have ch': "chunks t' = incOffset c ?n" by simp
  have "?n \<le> curBytes c - curOffset c" by simp
  then have n2: "unat ?n \<le> chunkBytes ch - unat (headOffset c)"
    using w(5) by (simp add: word_le_nat_alt)
  with w(4) have hn: "unat (headOffset c) + unat ?n \<le> chunkBytes ch"
    by (simp add: curOffset_def)
  moreover from a(1) cur have "chunkBytes ch < 2 ^ LENGTH(32)" by (simp add: wfChunks_def wfChunk_def)
  ultimately have "unat (headOffset c) + unat ?n < 2 ^ LENGTH(32)" by simp
  then have off: "unat (headOffset c + ?n) = unat (headOffset c) + unat ?n"
    by (simp only: unat_add_lem)
  show ?thesis
    using cur w(6) off hn by (simp add: ch' incOffset_def curOffset_def)
qed

theorem C6_incOffset_precondition_witness:
  "\<exists>ch. current (exQueue4\<lparr>queue := [], current := Some \<lparr>chunk = Some [1, 2, 3, 4], ts = 1\<rparr>\<rparr>) = Some ch
     \<and> unat (curOffset (exQueue4\<lparr>queue := [], current := Some \<lparr>chunk = Some [1, 2, 3, 4], ts = 1\<rparr>,
                                  headOffset := 3\<rparr>)) \<le> chunkBytes ch"
proof -
  let ?s = "\<lparr>buf = [0, 0, 0], bufOff = 0, numBytes = 3, timeStamp = 0, chunks = exQueue4, finished = False\<rparr>"
  let ?c = "exQueue4\<lparr>queue := [], current := Some \<lparr>chunk = Some [1, 2, 3, 4], ts = 1\<rparr>\<rparr>"
  let ?t' = "\<lparr>buf = [1, 2, 3], bufOff = 3, numBytes = 0, timeStamp = 0,
              chunks = ?c\<lparr>headOffset := 3\<rparr>, finished = False\<rparr>"
  have wf: "wfChunks exQueue4"
    by (simp add: wfChunks_def wfChunk_def exQueue4_def newChunks_def chunkBytes_def)
  have it: "fillIter None False ?s ?s" by (rule fillIter.start)
  have nz: "numBytes ?s \<noteq> 0" by simp
  have ac: "(if needNext (chunks ?s) then waitNext (chunks ?s) else Inr (chunks ?s)) = Inr ?c"
    by (simp add: needNext_def curBuf_def waitNext_def exQueue4_def newChunks_def)
  have nb: "\<not> (needNext (chunks ?s) \<and> curBuf ?c = None)"
    by (simp add: curBuf_def)
  have cp: "fillCopy None False (?s\<lparr>chunks := ?c\<rparr>) = Inr ?t'"
    by (simp add: fillCopy_def curBuf_def curBytes_def curOffset_def chunkBytes_def incOffset_def
        memcpy_def exQueue4_def newChunks_def Let_def)
  from C6_incOffset_precondition [OF wf it nz ac nb cp] show ?thesis
    by (simp add: exQueue4_def newChunks_def curOffset_def curBytes_def chunkBytes_def incOffset_def)
qed

section \<open>Whole calls of the fill algorithm\<close>


text \<open>When a call returns: a queue that is quitting never blocks, and a queue that is not
  returns exactly when it holds the bytes requested. So a call that returns fewer bytes
  than requested was made on a quitting queue.\<close>

lemma fillBuffer_returns:
  assumes "wfChunks c" and "quitting c \<or> unat n \<le> remaining c" and "isInput \<longrightarrow> inOpts \<noteq> None"
  shows "\<exists>s. fillBuffer inOpts dst n c fin isInput = Inr s"
proof -
  let ?s0 = "\<lparr>buf = dst, bufOff = 0, numBytes = n, timeStamp = 0, chunks = c, finished = fin\<rparr>"
  have b: "unat (bufOff ?s0) + unat (numBytes ?s0) < 2 ^ 32"
    using unsigned_less [of n, where 'a = nat] by simp
  from fillLoop_returns [of ?s0 isInput inOpts, OF _ b] assms show ?thesis
    by (simp add: fillBuffer_def)
qed

lemma push_returns_iff:
  "(\<exists>c'. push c ch = Inr c')
     \<longleftrightarrow> quitting c \<or> maxQueued c = 0 \<or> length (queue c) < unat (maxQueued c)"
  by (auto simp: push_def)

lemma fillLoop_short_quitting:
  assumes "fillLoop inOpts isInput s = Inr s'" and "wfChunks (chunks s)"
    and "unat (bufOff s) + unat (numBytes s) < 2 ^ 32"
    and "remaining (chunks s) < unat (numBytes s)"
  shows "quitting (chunks s)"
  using assms
proof (induction inOpts isInput s arbitrary: s' rule: fillLoop.induct)
  case (1 inOpts isInput s)
  note res = \<open>fillLoop inOpts isInput s = Inr s'\<close>
  note wf = \<open>wfChunks (chunks s)\<close>
  note bound = \<open>unat (bufOff s) + unat (numBytes s) < 2 ^ 32\<close>
  note short = \<open>remaining (chunks s) < unat (numBytes s)\<close>
  from short have nz: "numBytes s \<noteq> 0" by auto
  show ?case
  proof (cases "if needNext (chunks s) then waitNext (chunks s) else Inr (chunks s)")
    case (Inl e)
    from fillLoop_blocked [OF nz Inl] res show ?thesis by simp
  next
    case (Inr c)
    note a = acquire_wf [OF wf Inr]
    show ?thesis
    proof (cases "needNext (chunks s) \<and> curBuf c = None")
      case True
      with Inr have "waitNext (chunks s) = Inr c" by simp
      from waitNext_wf(4) [OF wf _ this] True show ?thesis by simp
    next
      case False
      note lp = fillLoop_copy [OF nz Inr False, of inOpts isInput]
      show ?thesis
      proof (cases "fillCopy inOpts isInput (s\<lparr>chunks := c\<rparr>)")
        case (Inl e)
        with lp res show ?thesis by simp
      next
        case cp: (Inr s1)
        with lp res have r1: "fillLoop inOpts isInput s1 = Inr s'" by simp
        have wfc: "wfChunks (chunks (s\<lparr>chunks := c\<rparr>))" using a(1) by simp
        have cbc: "curBuf (chunks (s\<lparr>chunks := c\<rparr>)) \<noteq> None" using a(5) [OF False] by simp
        have bc: "unat (bufOff (s\<lparr>chunks := c\<rparr>)) + unat (numBytes (s\<lparr>chunks := c\<rparr>)) < 2 ^ 32"
          using bound by simp
        note st = fillCopy_step [OF wfc cbc bc cp]
        define n where "n = unat (min (numBytes s) (curBytes c - curOffset c))"
        have n1: "n \<le> unat (numBytes s)" and n2: "n \<le> remaining (chunks s)"
          and b1: "unat (bufOff s1) = unat (bufOff s) + n"
          and m1: "unat (numBytes s1) = unat (numBytes s) - n"
          and w1: "wfChunks (chunks s1)"
          and rm: "remaining (chunks s1) = remaining (chunks s) - n"
          and q1: "quitting (chunks s1) = quitting (chunks s)"
          using st(1-7) a(2,3) by (simp_all add: n_def)
        from b1 m1 n1 bound have bd1: "unat (bufOff s1) + unat (numBytes s1) < 2 ^ 32" by simp
        from short rm m1 n1 n2 have sh1: "remaining (chunks s1) < unat (numBytes s1)" by simp
        from "1.IH" [OF nz Inr False cp r1 w1 bd1 sh1] q1 show ?thesis by simp
      qed
    qed
  qed
qed

lemma fillBuffer_returns_iff:
  assumes wf: "wfChunks c" and io: "isInput \<longrightarrow> inOpts \<noteq> None"
  shows "(\<exists>s. fillBuffer inOpts dst n c fin isInput = Inr s)
           \<longleftrightarrow> quitting c \<or> unat n \<le> remaining c"
proof
  assume "\<exists>s. fillBuffer inOpts dst n c fin isInput = Inr s"
  then obtain s where f: "fillBuffer inOpts dst n c fin isInput = Inr s" by blast
  let ?s0 = "\<lparr>buf = dst, bufOff = 0, numBytes = n, timeStamp = 0, chunks = c, finished = fin\<rparr>"
  have b: "unat (bufOff ?s0) + unat (numBytes ?s0) < 2 ^ 32"
    using unsigned_less [of n, where 'a = nat] by simp
  from f have fl: "fillLoop inOpts isInput ?s0 = Inr s" by (simp add: fillBuffer_def)
  show "quitting c \<or> unat n \<le> remaining c"
  proof (rule disjCI)
    assume "\<not> unat n \<le> remaining c"
    then have "remaining (chunks ?s0) < unat (numBytes ?s0)" by simp
    from fillLoop_short_quitting [OF fl _ b this] wf show "quitting c" by simp
  qed
next
  assume "quitting c \<or> unat n \<le> remaining c"
  from fillBuffer_returns [OF wf this io] show "\<exists>s. fillBuffer inOpts dst n c fin isInput = Inr s" .
qed

section \<open>Pulling input\<close>



text \<open>Six bytes are requested from the context whose queue holds four and is quitting.\<close>

lemma ex_short_pull:
  "pullInChunk exShortContext [7, 7, 7, 7, 7, 7] 6
     = Inr (\<lparr>chunk = Some [1, 2, 3, 4], ts = 1\<rparr>, True,
            exShortContext\<lparr>mInChunks :=
              (quit exQueue4)\<lparr>queue := [], current := None, headOffset := 0\<rparr>\<rparr>)"
  by (simp add: pullInChunk_def fillBuffer_def fillLoop.simps exShortContext_def exInContext_def
      exQueue4_def exOpts_def quit_def newChunks_def needNext_def curBuf_def curBytes_def
      curOffset_def curTs_def chunkBytes_def waitNext_def fillCopy_def fillFinish_def
      timeOffset_def incOffset_def memcpy_def memset_def Let_def)



text \<open>A request for no bytes yields no bytes, which is all that was requested: the chunk
  returned has the untrimmed buffer, of length 0.\<close>

lemma ex_zero_pull:
  "fillBuffer (mInOptions exInContext) [] 0 (mInChunks exInContext) False True
     = Inr \<lparr>buf = [], bufOff = 0, numBytes = 0, timeStamp = 0, chunks = mInChunks exInContext,
            finished = False\<rparr>
   \<and> pullInChunk exInContext [] 0 = Inr (\<lparr>chunk = Some [], ts = 0\<rparr>, False, exInContext)"
  by (simp add: pullInChunk_def fillBuffer_def fillLoop_zero exInContext_def)




section \<open>Byte conservation\<close>

text \<open>Pushes onto a queue that is not quitting append in order.\<close>

lemma pushAll_queue:
  "pushAll c xs = Inr c' \<Longrightarrow> \<not> quitting c \<Longrightarrow>
   queue c' = queue c @ xs \<and> current c' = current c \<and> headOffset c' = headOffset c
   \<and> \<not> quitting c'"
proof (induction xs arbitrary: c)
  case Nil
  then show ?case by simp
next
  case (Cons x xs)
  from Cons.prems obtain c1 where p: "push c x = Inr c1" and r: "pushAll c1 xs = Inr c'"
    by (auto split: sum.splits)
  from p Cons.prems(2) have c1: "c1 = c\<lparr>queue := queue c @ [x]\<rparr>"
    by (auto simp: push_def split: if_splits)
  with Cons.prems(2) have "\<not> quitting c1" by simp
  from Cons.IH [OF r this] c1 show ?case by simp
qed

lemma pushAll_new:
  assumes "pushAll (newChunks mq) xs = Inr c"
  shows "remaining c = sum_list (map chunkBytes xs)" and "wfChunks c = list_all wfChunk xs"
    and "remaining (quit c) = sum_list (map chunkBytes xs)"
    and "wfChunks (quit c) = list_all wfChunk xs"
proof -
  from pushAll_queue [OF assms] have "queue c = xs" "current c = None"
    by (simp_all add: newChunks_def)
  then show "remaining c = sum_list (map chunkBytes xs)" and "wfChunks c = list_all wfChunk xs"
    and "remaining (quit c) = sum_list (map chunkBytes xs)"
    and "wfChunks (quit c) = list_all wfChunk xs"
    by (simp_all add: remaining_def wfChunks_def quit_def)
qed



































section \<open>The timestamp of a fill\<close>










text \<open>Two bytes are requested on the input path from a queue whose first chunk is empty: the
  first iteration copies nothing, the second derives the timestamp again, and the call
  returns the timestamp of the second chunk.\<close>

lemma ex_empty_first_chunk:
  "fillBuffer (Some exOpts) [0, 0] 2
     ((newChunks 0)\<lparr>queue := [\<lparr>chunk = Some [], ts = 5\<rparr>, \<lparr>chunk = Some [1, 2, 3, 4], ts = 1\<rparr>]\<rparr>)
     False True
   = Inr \<lparr>buf = [1, 2], bufOff = 2, numBytes = 0, timeStamp = 1,
          chunks = (newChunks 0)\<lparr>current := Some \<lparr>chunk = Some [1, 2, 3, 4], ts = 1\<rparr>,
                                  headOffset := 2\<rparr>,
          finished = False\<rparr>"
  by (simp add: fillBuffer_def fillLoop.simps exOpts_def newChunks_def
      needNext_def curBuf_def curBytes_def curOffset_def curTs_def chunkBytes_def waitNext_def
      fillCopy_def timeOffset_def incOffset_def memcpy_def Let_def)




section \<open>The callback: its return, its code and the input chunk\<close>

text \<open>The callback is its input half followed by its output half. With input configured the
  input half is one \<^verbatim>\<open>push\<close> of a chunk holding a copy of the input buffer and the input
  timestamp, and its code is "continue"; without, it only records the status flags and its
  code is "complete".\<close>

lemma PaCallback_phases:
  "PaCallback input output frameCount timeInfo statusFlags ctx curTime =
     (case PaCallbackInput input frameCount timeInfo statusFlags ctx curTime of
        Inl e \<Rightarrow> Inl e
      | Inr (inRetCode, ctx2) \<Rightarrow> PaCallbackOutput inRetCode ctx2 output frameCount)"
  by (simp add: PaCallback_def PaCallbackInput_def PaCallbackOutput_def Let_def
      split: sum.splits prod.splits)

lemma readPaBuffer_push:
  assumes "mInOptions ctx = Some opts"
  shows "readPaBuffer ctx src fc t =
     (case push (mInChunks ctx)
             \<lparr>chunk = Some (memcpy
                (replicate (unat (fc * AudioOptions.channelCount opts * sampleBits opts div 8)) 0) 0
                src 0 (unat (fc * AudioOptions.channelCount opts * sampleBits opts div 8))),
              ts = t\<rparr> of
        Inl e \<Rightarrow> Inl e
      | Inr c \<Rightarrow> Inr (True, ctx\<lparr>mInChunks := c\<rparr>))"
  using assms by (simp add: readPaBuffer_def Let_def)

lemma PaCallbackInput_push:
  assumes "mInOptions ctx = Some opts"
  shows "PaCallbackInput input frameCount timeInfo statusFlags ctx curTime =
     (case push (mInChunks ctx)
             \<lparr>chunk = Some (memcpy
                (replicate (unat (frameCount * AudioOptions.channelCount opts * sampleBits opts div 8)) 0) 0
                input 0 (unat (frameCount * AudioOptions.channelCount opts * sampleBits opts div 8))),
              ts = (if inputBufferAdcTime timeInfo > 0 then inputBufferAdcTime timeInfo
                    else curTime - mInLatency ctx)\<rparr> of
        Inl e \<Rightarrow> Inl e
      | Inr c \<Rightarrow> Inr (paContinue, (checkStatus ctx statusFlags)\<lparr>mInChunks := c\<rparr>))"
proof -
  have o: "mInOptions (checkStatus ctx statusFlags) = Some opts" using assms by simp
  define ch where "ch = \<lparr>chunk = Some (memcpy
                (replicate (unat (frameCount * AudioOptions.channelCount opts * sampleBits opts div 8)) 0) 0
                input 0 (unat (frameCount * AudioOptions.channelCount opts * sampleBits opts div 8))),
              ts = (if inputBufferAdcTime timeInfo > 0 then inputBufferAdcTime timeInfo
                    else curTime - mInLatency ctx)\<rparr>"
  have r: "readPaBuffer (checkStatus ctx statusFlags) input frameCount
             (inTimestamp ctx curTime timeInfo)
           = (case push (mInChunks ctx) ch of Inl e \<Rightarrow> Inl e
              | Inr c \<Rightarrow> Inr (True, (checkStatus ctx statusFlags)\<lparr>mInChunks := c\<rparr>))"
    unfolding readPaBuffer_push [OF o] ch_def
    by (simp add: inTimestamp_def getInLatency_def)
  have "PaCallbackInput input frameCount timeInfo statusFlags ctx curTime =
     (case push (mInChunks ctx) ch of
        Inl e \<Rightarrow> Inl e
      | Inr c \<Rightarrow> Inr (paContinue, (checkStatus ctx statusFlags)\<lparr>mInChunks := c\<rparr>))"
    unfolding PaCallbackInput_def Let_def
    by (cases "push (mInChunks ctx) ch") (simp_all add: hasInput_def assms r)
  then show ?thesis by (simp only: ch_def)
qed

lemma PaCallbackInput_none:
  assumes "mInOptions ctx = None"
  shows "PaCallbackInput input frameCount timeInfo statusFlags ctx curTime
           = Inr (paComplete, checkStatus ctx statusFlags)"
  using assms by (simp add: PaCallbackInput_def Let_def hasInput_def)

lemma PaCallbackInput_frame:
  assumes "PaCallbackInput input frameCount timeInfo statusFlags ctx curTime = Inr (rcIn, ctx2)"
  shows "mOutChunks ctx2 = mOutChunks ctx \<and> mOutOptions ctx2 = mOutOptions ctx \<and>
      mInOptions ctx2 = mInOptions ctx \<and> rcIn = (if hasInput ctx then paContinue else paComplete)"
proof (cases "mInOptions ctx")
  case None
  with assms PaCallbackInput_none [OF None, of input frameCount timeInfo statusFlags curTime]
  show ?thesis by (auto simp: hasInput_def)
next
  case (Some opts)
  with assms PaCallbackInput_push [OF Some, of input frameCount timeInfo statusFlags curTime]
  show ?thesis by (auto simp: hasInput_def split: sum.splits)
qed

text \<open>The callback returns exactly when neither direction has to wait: the input queue
  accepts a chunk (it is quitting, unbounded or not full), and the output queue holds the
  bytes of the frames requested or is quitting.\<close>

lemma PaCallbackInput_returns_iff:
  "(\<exists>r. PaCallbackInput input frameCount timeInfo statusFlags ctx curTime = Inr r)
     \<longleftrightarrow> (hasInput ctx \<longrightarrow>
            quitting (mInChunks ctx) \<or> maxQueued (mInChunks ctx) = 0
            \<or> length (queue (mInChunks ctx)) < unat (maxQueued (mInChunks ctx)))"
proof (cases "mInOptions ctx")
  case None
  from PaCallbackInput_none [OF None] None show ?thesis by (simp add: hasInput_def)
next
  case (Some opts)
  let ?ch = "\<lparr>chunk = Some (memcpy
                (replicate (unat (frameCount * AudioOptions.channelCount opts * sampleBits opts div 8)) 0) 0
                input 0 (unat (frameCount * AudioOptions.channelCount opts * sampleBits opts div 8))),
              ts = (if inputBufferAdcTime timeInfo > 0 then inputBufferAdcTime timeInfo
                    else curTime - mInLatency ctx)\<rparr>"
  have "(\<exists>r. PaCallbackInput input frameCount timeInfo statusFlags ctx curTime = Inr r)
          \<longleftrightarrow> (\<exists>c'. push (mInChunks ctx) ?ch = Inr c')"
    unfolding PaCallbackInput_push [OF Some]
    by (cases "push (mInChunks ctx) ?ch") simp_all
  with Some show ?thesis by (simp add: push_returns_iff hasInput_def)
qed

lemma fillPaBuffer_returns_iff:
  assumes o: "mOutOptions ctx = Some opts" and wf: "wfChunks (mOutChunks ctx)"
  shows "(\<exists>r. fillPaBuffer ctx dst fc = Inr r)
     \<longleftrightarrow> quitting (mOutChunks ctx)
         \<or> unat (fc * AudioOptions.channelCount opts * sampleBits opts div 8)
             \<le> remaining (mOutChunks ctx)"
proof -
  let ?n = "fc * AudioOptions.channelCount opts * sampleBits opts div 8"
  have "(\<exists>r. fillPaBuffer ctx dst fc = Inr r)
     \<longleftrightarrow> (\<exists>s. fillBuffer (mInOptions ctx) dst ?n (mOutChunks ctx) False False = Inr s)"
    by (cases "fillBuffer (mInOptions ctx) dst ?n (mOutChunks ctx) False False")
      (simp_all add: fillPaBuffer_def o Let_def)
  also have "\<dots> \<longleftrightarrow> quitting (mOutChunks ctx) \<or> unat ?n \<le> remaining (mOutChunks ctx)"
    by (rule fillBuffer_returns_iff [OF wf]) simp
  finally show ?thesis .
qed

lemma PaCallbackOutput_returns_iff:
  assumes wf: "wfChunks (mOutChunks ctx2)"
  shows "(\<exists>r. PaCallbackOutput rcIn ctx2 output fc = Inr r)
     \<longleftrightarrow> (\<forall>opts. mOutOptions ctx2 = Some opts \<longrightarrow>
            quitting (mOutChunks ctx2)
            \<or> unat (fc * AudioOptions.channelCount opts * sampleBits opts div 8)
                \<le> remaining (mOutChunks ctx2))"
proof (cases "mOutOptions ctx2")
  case None
  then show ?thesis by (simp add: PaCallbackOutput_def hasOutput_def)
next
  case (Some opts)
  have "(\<exists>r. PaCallbackOutput rcIn ctx2 output fc = Inr r)
          \<longleftrightarrow> (\<exists>r. fillPaBuffer ctx2 output fc = Inr r)"
    by (cases "fillPaBuffer ctx2 output fc")
      (auto simp: PaCallbackOutput_def hasOutput_def Some Let_def split: prod.splits)
  with fillPaBuffer_returns_iff [OF Some wf, of "output" fc] Some show ?thesis by simp
qed

lemma PaCallback_returns_iff:
  assumes wf: "wfChunks (mOutChunks ctx)"
  shows "(\<exists>r. PaCallback input output frameCount timeInfo statusFlags ctx curTime = Inr r)
     \<longleftrightarrow> (hasInput ctx \<longrightarrow>
            quitting (mInChunks ctx) \<or> maxQueued (mInChunks ctx) = 0
            \<or> length (queue (mInChunks ctx)) < unat (maxQueued (mInChunks ctx)))
         \<and> (\<forall>opts. mOutOptions ctx = Some opts \<longrightarrow>
            quitting (mOutChunks ctx)
            \<or> unat (frameCount * AudioOptions.channelCount opts * sampleBits opts div 8)
                \<le> remaining (mOutChunks ctx))"
proof (cases "PaCallbackInput input frameCount timeInfo statusFlags ctx curTime")
  case (Inl e)
  then have "\<not> (\<exists>r. PaCallbackInput input frameCount timeInfo statusFlags ctx curTime = Inr r)"
    by simp
  with PaCallbackInput_returns_iff [of input frameCount timeInfo statusFlags ctx curTime]
  have "\<not> (hasInput ctx \<longrightarrow>
            quitting (mInChunks ctx) \<or> maxQueued (mInChunks ctx) = 0
            \<or> length (queue (mInChunks ctx)) < unat (maxQueued (mInChunks ctx)))" by simp
  moreover from Inl have "\<not> (\<exists>r. PaCallback input output frameCount timeInfo statusFlags ctx curTime = Inr r)"
    by (simp add: PaCallback_phases)
  ultimately show ?thesis by blast
next
  case (Inr p)
  obtain rcIn ctx2 where p: "p = (rcIn, ctx2)" by (cases p)
  from Inr p have i: "PaCallbackInput input frameCount timeInfo statusFlags ctx curTime = Inr (rcIn, ctx2)"
    by simp
  note fr = PaCallbackInput_frame [OF i]
  from i PaCallbackInput_returns_iff [of input frameCount timeInfo statusFlags ctx curTime]
  have inr: "hasInput ctx \<longrightarrow>
            quitting (mInChunks ctx) \<or> maxQueued (mInChunks ctx) = 0
            \<or> length (queue (mInChunks ctx)) < unat (maxQueued (mInChunks ctx))" by blast
  from wf fr have wf2: "wfChunks (mOutChunks ctx2)" by simp
  have "(\<exists>r. PaCallback input output frameCount timeInfo statusFlags ctx curTime = Inr r)
          \<longleftrightarrow> (\<exists>r. PaCallbackOutput rcIn ctx2 output frameCount = Inr r)"
    by (simp add: PaCallback_phases i)
  with PaCallbackOutput_returns_iff [OF wf2, of rcIn "output" frameCount] fr inr
  show ?thesis by simp
qed




text \<open>On the context with both directions the input chunk is pushed, and then the fill of
  the output buffer waits for data: the callback as a whole does not return.\<close>

lemma ex_duplex_blocked:
  "PaCallback [1,2,3,4,5,6,7,8] [7,7,7,7,7,7,7,7] 1
     \<lparr>inputBufferAdcTime = 0, currentTime = 5, outputBufferDacTime = 0\<rparr> 0 exDuplexContext 5
   = Inl Blocked"
  by (simp add: PaCallback_def exDuplexContext_def exInContext_def exOpts_def hasInput_def
      hasOutput_def readPaBuffer_def fillPaBuffer_def fillBuffer_def fillLoop.simps needNext_def
      curBuf_def waitNext_def checkStatus_def push_def newChunks_def inTimestamp_def
      getInLatency_def memcpy_def paContinue_def paComplete_def Let_def)

text \<open>
  Claim C7. For every invocation of the callback with input configured, the input half of
  the callback is the push, onto the input queue, of the chunk \<open>ch\<close> that holds a copy of the
  input buffer and whose timestamp is the hardware ADC timestamp if that is strictly
  greater than 0, and the current stream time minus the measured input latency otherwise.
  The input half returns exactly when the input queue accepts a chunk; when the queue is
  not quitting, \<open>ch\<close> is then the last chunk of the input queue, whether or not the output
  half returns afterwards, and also in the context the whole callback returns. On an
  output queue satisfying the data-model invariant the whole callback returns exactly when,
  moreover, the output queue (if configured) is quitting or holds the bytes requested.
\<close>

theorem C7_input_timestamp:
  assumes opts: "mInOptions ctx = Some opts"
    and n: "n = unat (frameCount * AudioOptions.channelCount opts * sampleBits opts div 8)"
    and ch: "ch = \<lparr>chunk = Some (memcpy (replicate n 0) 0 input 0 n),
                   ts = (if inputBufferAdcTime timeInfo > 0 then inputBufferAdcTime timeInfo
                         else curTime - mInLatency ctx)\<rparr>"
  shows "PaCallback input output frameCount timeInfo statusFlags ctx curTime =
           (case PaCallbackInput input frameCount timeInfo statusFlags ctx curTime of
              Inl e \<Rightarrow> Inl e
            | Inr (inRetCode, ctx2) \<Rightarrow> PaCallbackOutput inRetCode ctx2 output frameCount)
       \<and> PaCallbackInput input frameCount timeInfo statusFlags ctx curTime =
           (case push (mInChunks ctx) ch of
              Inl e \<Rightarrow> Inl e
            | Inr c \<Rightarrow> Inr (paContinue, (checkStatus ctx statusFlags)\<lparr>mInChunks := c\<rparr>))
       \<and> ((\<exists>rcIn ctx2. PaCallbackInput input frameCount timeInfo statusFlags ctx curTime = Inr (rcIn, ctx2))
            \<longleftrightarrow> quitting (mInChunks ctx) \<or> maxQueued (mInChunks ctx) = 0
                \<or> length (queue (mInChunks ctx)) < unat (maxQueued (mInChunks ctx)))
       \<and> (\<not> quitting (mInChunks ctx) \<longrightarrow>
            (\<forall>rcIn ctx2.
               PaCallbackInput input frameCount timeInfo statusFlags ctx curTime = Inr (rcIn, ctx2) \<longrightarrow>
                 queue (mInChunks ctx2) = queue (mInChunks ctx) @ [ch])
          \<and> (\<forall>rc out' ctx'.
               PaCallback input output frameCount timeInfo statusFlags ctx curTime = Inr (rc, out', ctx') \<longrightarrow>
                 queue (mInChunks ctx') = queue (mInChunks ctx) @ [ch]))
       \<and> (wfChunks (mOutChunks ctx) \<longrightarrow>
            ((\<exists>rc out' ctx'.
                PaCallback input output frameCount timeInfo statusFlags ctx curTime = Inr (rc, out', ctx'))
             \<longleftrightarrow> (quitting (mInChunks ctx) \<or> maxQueued (mInChunks ctx) = 0
                   \<or> length (queue (mInChunks ctx)) < unat (maxQueued (mInChunks ctx)))
                 \<and> (\<forall>oo. mOutOptions ctx = Some oo \<longrightarrow>
                      quitting (mOutChunks ctx)
                      \<or> unat (frameCount * AudioOptions.channelCount oo * sampleBits oo div 8)
                          \<le> remaining (mOutChunks ctx))))"
proof -
  have hi: "hasInput ctx" using opts by (simp add: hasInput_def)
  note ph = PaCallback_phases [of input "output" frameCount timeInfo statusFlags ctx curTime]
  have pu: "PaCallbackInput input frameCount timeInfo statusFlags ctx curTime =
           (case push (mInChunks ctx) ch of
              Inl e \<Rightarrow> Inl e
            | Inr c \<Rightarrow> Inr (paContinue, (checkStatus ctx statusFlags)\<lparr>mInChunks := c\<rparr>))"
    unfolding ch n by (rule PaCallbackInput_push [OF opts])
  have ri: "(\<exists>rcIn ctx2. PaCallbackInput input frameCount timeInfo statusFlags ctx curTime = Inr (rcIn, ctx2))
            \<longleftrightarrow> quitting (mInChunks ctx) \<or> maxQueued (mInChunks ctx) = 0
                \<or> length (queue (mInChunks ctx)) < unat (maxQueued (mInChunks ctx))"
    using PaCallbackInput_returns_iff [of input frameCount timeInfo statusFlags ctx curTime] hi
    by simp
  have qi: "queue (mInChunks ctx2) = queue (mInChunks ctx) @ [ch]"
    if nq: "\<not> quitting (mInChunks ctx)"
      and r: "PaCallbackInput input frameCount timeInfo statusFlags ctx curTime = Inr (rcIn, ctx2)"
    for rcIn ctx2
  proof (cases "push (mInChunks ctx) ch")
    case (Inl e)
    with r pu show ?thesis by simp
  next
    case (Inr c)
    with nq have "queue c = queue (mInChunks ctx) @ [ch]"
      by (auto simp: push_def split: if_splits)
    with r pu Inr show ?thesis by auto
  qed
  have qc: "queue (mInChunks ctx') = queue (mInChunks ctx) @ [ch]"
    if nq: "\<not> quitting (mInChunks ctx)"
      and r: "PaCallback input output frameCount timeInfo statusFlags ctx curTime = Inr (rc, out', ctx')"
    for rc out' ctx'
  proof (cases "PaCallbackInput input frameCount timeInfo statusFlags ctx curTime")
    case (Inl e)
    with r ph show ?thesis by simp
  next
    case (Inr p)
    obtain rcIn ctx2 where p: "p = (rcIn, ctx2)" by (cases p)
    from Inr p have i: "PaCallbackInput input frameCount timeInfo statusFlags ctx curTime = Inr (rcIn, ctx2)"
      by simp
    from r ph i have o2: "PaCallbackOutput rcIn ctx2 output frameCount = Inr (rc, out', ctx')"
      by simp
    have "mInChunks ctx' = mInChunks ctx2"
    proof (cases "hasOutput ctx2")
      case True
      with o2 obtain outOk where "fillPaBuffer ctx2 output frameCount = Inr (outOk, out', ctx')"
        by (auto simp: PaCallbackOutput_def Let_def split: sum.splits prod.splits)
      from fillPaBuffer_Inr [OF this] show ?thesis by auto
    next
      case False
      with o2 show ?thesis by (auto simp: PaCallbackOutput_def Let_def)
    qed
    with qi [OF nq i] show ?thesis by simp
  qed
  have rw: "(\<exists>rc out' ctx'.
                PaCallback input output frameCount timeInfo statusFlags ctx curTime = Inr (rc, out', ctx'))
             \<longleftrightarrow> (quitting (mInChunks ctx) \<or> maxQueued (mInChunks ctx) = 0
                   \<or> length (queue (mInChunks ctx)) < unat (maxQueued (mInChunks ctx)))
                 \<and> (\<forall>oo. mOutOptions ctx = Some oo \<longrightarrow>
                      quitting (mOutChunks ctx)
                      \<or> unat (frameCount * AudioOptions.channelCount oo * sampleBits oo div 8)
                          \<le> remaining (mOutChunks ctx))"
    if wf: "wfChunks (mOutChunks ctx)"
    using PaCallback_returns_iff [OF wf, of input "output" frameCount timeInfo statusFlags curTime] hi
    by simp
  from ph pu ri qi qc rw show ?thesis by blast
qed

theorem C7_input_timestamp_witness:
  "(\<exists>rc out' ctx'.
      PaCallback [1,2,3,4,5,6,7,8] [] 1
        \<lparr>inputBufferAdcTime = 0, currentTime = 5, outputBufferDacTime = 0\<rparr> 0 exInContext 5
        = Inr (rc, out', ctx')
      \<and> queue (mInChunks ctx') = [\<lparr>chunk = Some [1,2,3,4,5,6,7,8], ts = 4\<rparr>])
   \<and> (\<exists>rc out' ctx'.
      PaCallback [1,2,3,4,5,6,7,8] [] 1
        \<lparr>inputBufferAdcTime = 9, currentTime = 5, outputBufferDacTime = 0\<rparr> 0 exInContext 5
        = Inr (rc, out', ctx')
      \<and> queue (mInChunks ctx') = [\<lparr>chunk = Some [1,2,3,4,5,6,7,8], ts = 9\<rparr>])
   \<and> PaCallback [1,2,3,4,5,6,7,8] [7,7,7,7,7,7,7,7] 1
        \<lparr>inputBufferAdcTime = 0, currentTime = 5, outputBufferDacTime = 0\<rparr> 0 exDuplexContext 5
        = Inl Blocked
   \<and> (\<exists>rcIn ctx2.
      PaCallbackInput [1,2,3,4,5,6,7,8] 1
        \<lparr>inputBufferAdcTime = 0, currentTime = 5, outputBufferDacTime = 0\<rparr> 0 exDuplexContext 5
        = Inr (rcIn, ctx2)
      \<and> queue (mInChunks ctx2) = [\<lparr>chunk = Some [1,2,3,4,5,6,7,8], ts = 4\<rparr>])"
proof -
  let ?in = "[1,2,3,4,5,6,7,8] :: uint8 list"
  let ?out = "[7,7,7,7,7,7,7,7] :: uint8 list"
  let ?t0 = "\<lparr>inputBufferAdcTime = 0, currentTime = 5, outputBufferDacTime = 0\<rparr>"
  let ?t9 = "\<lparr>inputBufferAdcTime = 9, currentTime = 5, outputBufferDacTime = 0\<rparr>"
  have oi: "mInOptions exInContext = Some exOpts" by (simp add: exInContext_def)
  have od: "mInOptions exDuplexContext = Some exOpts"
    by (simp add: exDuplexContext_def exInContext_def)
  have n: "(8::nat) = unat ((1::uint32) * AudioOptions.channelCount exOpts * sampleBits exOpts div 8)"
    by (simp add: exOpts_def)
  have m: "memcpy (replicate 8 0) 0 ?in 0 8 = ?in" by (simp add: memcpy_def)
  have c4: "\<lparr>chunk = Some ?in, ts = 4\<rparr>
      = \<lparr>chunk = Some (memcpy (replicate 8 0) 0 ?in 0 8),
         ts = (if inputBufferAdcTime ?t0 > 0 then inputBufferAdcTime ?t0
               else 5 - mInLatency exInContext)\<rparr>"
    by (simp add: m exInContext_def)
  have c9: "\<lparr>chunk = Some ?in, ts = 9\<rparr>
      = \<lparr>chunk = Some (memcpy (replicate 8 0) 0 ?in 0 8),
         ts = (if inputBufferAdcTime ?t9 > 0 then inputBufferAdcTime ?t9
               else 5 - mInLatency exInContext)\<rparr>"
    by (simp add: m)
  have d4: "\<lparr>chunk = Some ?in, ts = 4\<rparr>
      = \<lparr>chunk = Some (memcpy (replicate 8 0) 0 ?in 0 8),
         ts = (if inputBufferAdcTime ?t0 > 0 then inputBufferAdcTime ?t0
               else 5 - mInLatency exDuplexContext)\<rparr>"
    by (simp add: m exDuplexContext_def exInContext_def)
  note t1 = C7_input_timestamp [OF oi n c4, of "[]" 0]
  note t2 = C7_input_timestamp [OF oi n c9, of "[]" 0]
  note t3 = C7_input_timestamp [OF od n d4, of ?out 0]
  have wfi: "wfChunks (mOutChunks exInContext)"
    by (simp add: exInContext_def wfChunks_def newChunks_def)
  have wfd: "wfChunks (mOutChunks exDuplexContext)"
    by (simp add: exDuplexContext_def wfChunks_def newChunks_def)
  have qi: "\<not> quitting (mInChunks exInContext)" "queue (mInChunks exInContext) = []"
    "length (queue (mInChunks exInContext)) < unat (maxQueued (mInChunks exInContext))"
    "mOutOptions exInContext = None"
    by (simp_all add: exInContext_def newChunks_def)
  have qd: "\<not> quitting (mInChunks exDuplexContext)" "queue (mInChunks exDuplexContext) = []"
    "length (queue (mInChunks exDuplexContext)) < unat (maxQueued (mInChunks exDuplexContext))"
    "mOutOptions exDuplexContext = Some exOpts"
    "\<not> quitting (mOutChunks exDuplexContext)"
    "remaining (mOutChunks exDuplexContext) = 0"
    by (simp_all add: exDuplexContext_def exInContext_def newChunks_def remaining_def)
  from t1 wfi qi have a: "\<exists>rc out' ctx'.
      PaCallback ?in [] 1 ?t0 0 exInContext 5 = Inr (rc, out', ctx')
      \<and> queue (mInChunks ctx') = [\<lparr>chunk = Some ?in, ts = 4\<rparr>]"
    by (metis append_Nil option.distinct(1))
  from t2 wfi qi have b: "\<exists>rc out' ctx'.
      PaCallback ?in [] 1 ?t9 0 exInContext 5 = Inr (rc, out', ctx')
      \<and> queue (mInChunks ctx') = [\<lparr>chunk = Some ?in, ts = 9\<rparr>]"
    by (metis append_Nil option.distinct(1))
  from t3 qd have d: "\<exists>rcIn ctx2.
      PaCallbackInput ?in 1 ?t0 0 exDuplexContext 5 = Inr (rcIn, ctx2)
      \<and> queue (mInChunks ctx2) = [\<lparr>chunk = Some ?in, ts = 4\<rparr>]"
    by (metis append_Nil)
  note c = ex_duplex_blocked
  from a b c d show ?thesis by blast
qed

end
